theory Spec2Isabelle
  imports Complex_Main
begin

chapter \<open>CameraSlider: motion profiles, planner and controller\<close>

text \<open>
  A shallow embedding of the motion subsystem of the camera slider:
  \<^item> \<^verbatim>\<open>app/motion/easing.py\<close>: the easing functions;
  \<^item> \<^verbatim>\<open>app/motion/models.py\<close>: the validated profile model;
  \<^item> \<^verbatim>\<open>app/motion/planner.py\<close>: the sampler;
  \<^item> \<^verbatim>\<open>app/controller/manager.py\<close>: the worker and its motion primitives.

  Python's \<^verbatim>\<open>float\<close> is modelled by \<^typ>\<open>real\<close>: the arithmetic is exact, and
  rounding of IEEE doubles is outside the model. Python's \<^verbatim>\<open>int\<close> is \<^typ>\<open>int\<close>.
\<close>

section \<open>Exceptions\<close>

text \<open>
  The exceptions the modelled code paths can raise. \<open>str_of\<close> is Python's
  \<^verbatim>\<open>str(e)\<close>, which the worker stores in \<^verbatim>\<open>self.error\<close>.
\<close>

datatype exn =
    ZeroDivisionError
  | IndexError
  | TypeError
  | ValueError string
  | ValidationError string

fun str_of :: "exn \<Rightarrow> string" where
  "str_of ZeroDivisionError = ''float division by zero''"
| "str_of IndexError = ''list index out of range''"
| "str_of TypeError = ''cannot unpack non-iterable NoneType object''"
| "str_of (ValueError m) = m"
| "str_of (ValidationError m) = m"

section \<open>Easing (easing.py)\<close>

definition linear_ease :: "real \<Rightarrow> real" where
  "linear_ease u = (if u \<le> 0 then 0 else if u \<ge> 1 then 1 else u)"

record CubicBezier =
  p1x :: real
  p1y :: real
  p2x :: real
  p2y :: real

text \<open>The three local functions of \<^verbatim>\<open>CubicBezier.sample\<close>: \<^verbatim>\<open>bx\<close>, \<^verbatim>\<open>by\<close> and \<^verbatim>\<open>dx\<close>.\<close>

definition bx_fn :: "CubicBezier \<Rightarrow> real \<Rightarrow> real" where
  "bx_fn cb t = (let mt = 1 - t in 3 * mt * mt * t * p1x cb + 3 * mt * t * t * p2x cb + t ^ 3)"

definition by_fn :: "CubicBezier \<Rightarrow> real \<Rightarrow> real" where
  "by_fn cb t = (let mt = 1 - t in 3 * mt * mt * t * p1y cb + 3 * mt * t * t * p2y cb + t ^ 3)"

definition dx_fn :: "CubicBezier \<Rightarrow> real \<Rightarrow> real" where
  "dx_fn cb t =
     3 * (1 - t) * (1 - t) * p1x cb
     + 6 * (1 - t) * t * (p2x cb - p1x cb)
     + 3 * t * t * (1 - p2x cb)"

text \<open>
  The Newton-Raphson loop \<^verbatim>\<open>for _ in range(6)\<close>: the first argument counts the
  iterations left, the last is the current \<^verbatim>\<open>t\<close>. Each \<^verbatim>\<open>break\<close> returns the
  current value.
\<close>

fun newton :: "nat \<Rightarrow> CubicBezier \<Rightarrow> real \<Rightarrow> real \<Rightarrow> real" where
  "newton 0 cb u t = t"
| "newton (Suc n) cb u t =
     (let x_t = bx_fn cb t; d = dx_fn cb t in
      if \<bar>d\<bar> < 1 / 10 ^ 6 then t
      else let t' = t - (x_t - u) / d in
        if t' < 0 then 0
        else if t' > 1 then 1
        else newton n cb u t')"

text \<open>
  The bisection loop \<^verbatim>\<open>for _ in range(12)\<close>. The test of the residual uses the
  \<^verbatim>\<open>x_t\<close> computed before \<^verbatim>\<open>t\<close> is moved to the midpoint, as the source does.
\<close>

fun bisect :: "nat \<Rightarrow> CubicBezier \<Rightarrow> real \<Rightarrow> real \<Rightarrow> real \<Rightarrow> real \<Rightarrow> real" where
  "bisect 0 cb u lo hi t = t"
| "bisect (Suc n) cb u lo hi t =
     (let x_t = bx_fn cb t;
          lo' = (if x_t < u then t else lo);
          hi' = (if x_t < u then hi else t);
          t' = 0.5 * (lo' + hi')
      in if \<bar>x_t - u\<bar> \<le> 1 / 10 ^ 5 then t' else bisect n cb u lo' hi' t')"

definition sample :: "CubicBezier \<Rightarrow> real \<Rightarrow> real" where
  "sample cb u =
     (if u \<le> 0 then 0
      else if u \<ge> 1 then 1
      else let t = newton 6 cb u u;
               x_t = bx_fn cb t;
               t = (if \<bar>x_t - u\<bar> > 1 / 10 ^ 4 then bisect 12 cb u 0 1 u else t)
           in by_fn cb t)"

section \<open>The profile model (models.py)\<close>

text \<open>
  The three pydantic models. The fields \<^verbatim>\<open>Ease.type\<close>, \<^verbatim>\<open>Ease.p\<close> and
  \<^verbatim>\<open>Keyframe.t\<close> are named \<open>ease_type\<close>, \<open>ease_p\<close> and \<open>kf_t\<close> here. A value of
  one of these records is the data handed to the constructor; the constructor's result
  is the validated object.
\<close>

datatype ease_type = Linear | Cubic_bezier

record Ease =
  ease_type :: ease_type
  ease_p :: "real list option"

record Keyframe =
  kf_t :: real
  pos_mm :: real
  ease :: Ease

record MotionProfile =
  length_mm :: real
  keyframes :: "Keyframe list"
  max_speed_mm_s :: real
  max_accel_mm_s2 :: real

text \<open>\<^verbatim>\<open>Ease.validate_bezier\<close>: \<^verbatim>\<open>not self.p\<close> holds for \<^verbatim>\<open>None\<close> and for the empty list.\<close>

definition validate_bezier :: "Ease \<Rightarrow> exn + Ease" where
  "validate_bezier e =
     (if ease_type e = Cubic_bezier then
        (case ease_p e of
           None \<Rightarrow> Inl (ValidationError ''cubic-bezier requires p=[x1,y1,x2,y2]'')
         | Some ps \<Rightarrow>
             if ps = [] \<or> length ps \<noteq> 4
             then Inl (ValidationError ''cubic-bezier requires p=[x1,y1,x2,y2]'')
             else Inr e)
      else Inr e)"

text \<open>
  Constructing a \<^verbatim>\<open>Keyframe\<close>: the field constraint \<^verbatim>\<open>ge=0.0\<close> on \<^verbatim>\<open>t\<close>, then the
  nested \<^verbatim>\<open>Ease\<close>. Pydantic reports every failing field at once; the model returns
  the first.
\<close>

definition Keyframe_new :: "Keyframe \<Rightarrow> exn + Keyframe" where
  "Keyframe_new k =
     (if kf_t k < 0 then Inl (ValidationError ''t: Input should be greater than or equal to 0'')
      else case validate_bezier (ease k) of
             Inl e \<Rightarrow> Inl e
           | Inr e \<Rightarrow> Inr k)"

text \<open>A list field is validated element by element, in order.\<close>

fun validate_list :: "('a \<Rightarrow> exn + 'b) \<Rightarrow> 'a list \<Rightarrow> exn + 'b list" where
  "validate_list f [] = Inr []"
| "validate_list f (x # xs) =
     (case f x of
        Inl e \<Rightarrow> Inl e
      | Inr y \<Rightarrow> (case validate_list f xs of Inl e \<Rightarrow> Inl e | Inr ys \<Rightarrow> Inr (y # ys)))"

text \<open>
  The loop of \<^verbatim>\<open>MotionProfile.validate_keyframes\<close> over the sorted keyframes;
  the second argument is \<^verbatim>\<open>last_t\<close>.
\<close>

fun check_keyframes :: "real \<Rightarrow> real \<Rightarrow> Keyframe list \<Rightarrow> exn option" where
  "check_keyframes len last_t [] = None"
| "check_keyframes len last_t (k # ks) =
     (if kf_t k \<le> last_t then Some (ValidationError ''Keyframe times must be strictly increasing'')
      else if pos_mm k < 0 \<or> pos_mm k > len then Some (ValidationError ''Keyframe position outside length'')
      else check_keyframes len (kf_t k) ks)"

text \<open>
  \<^verbatim>\<open>validate_keyframes\<close> sorts \<^verbatim>\<open>self.keyframes\<close> in place by \<^verbatim>\<open>t\<close>
  (Python's sort is stable, as is \<^const>\<open>sort_key\<close>) and returns the object.
\<close>

definition validate_keyframes :: "MotionProfile \<Rightarrow> exn + MotionProfile" where
  "validate_keyframes pr =
     (if keyframes pr = [] \<or> length (keyframes pr) < 2
      then Inl (ValidationError ''At least two keyframes required'')
      else let kfs = sort_key kf_t (keyframes pr) in
        case check_keyframes (length_mm pr) (- 1) kfs of
          Some e \<Rightarrow> Inl e
        | None \<Rightarrow> Inr (pr\<lparr>keyframes := kfs\<rparr>))"

text \<open>
  Constructing a \<^verbatim>\<open>MotionProfile\<close>: the field constraints in the order of the
  declarations (\<^verbatim>\<open>gt=0\<close> on \<^verbatim>\<open>length_mm\<close>, the keyframes, \<^verbatim>\<open>gt=0\<close> on both limits),
  then the model validator, which runs only when every field is valid.
\<close>

definition MotionProfile_new :: "MotionProfile \<Rightarrow> exn + MotionProfile" where
  "MotionProfile_new raw =
     (if length_mm raw \<le> 0 then Inl (ValidationError ''length_mm: Input should be greater than 0'')
      else case validate_list Keyframe_new (keyframes raw) of
        Inl e \<Rightarrow> Inl e
      | Inr kfs \<Rightarrow>
          if max_speed_mm_s raw \<le> 0
          then Inl (ValidationError ''max_speed_mm_s: Input should be greater than 0'')
          else if max_accel_mm_s2 raw \<le> 0
          then Inl (ValidationError ''max_accel_mm_s2: Input should be greater than 0'')
          else validate_keyframes (raw\<lparr>keyframes := kfs\<rparr>))"

text \<open>
  The objects the constructor returns, in the words of the data model: the field
  constraints, at least two keyframes, strictly increasing times, positions within
  the length, four control values on a cubic-bezier ease.
\<close>

definition ease_ok :: "Ease \<Rightarrow> bool" where
  "ease_ok e =
     (case ease_type e of
        Linear \<Rightarrow> True
      | Cubic_bezier \<Rightarrow> (case ease_p e of None \<Rightarrow> False | Some ps \<Rightarrow> length ps = 4))"

definition valid_profile :: "MotionProfile \<Rightarrow> bool" where
  "valid_profile pr =
     (0 < length_mm pr \<and> 0 < max_speed_mm_s pr \<and> 0 < max_accel_mm_s2 pr
      \<and> 2 \<le> length (keyframes pr)
      \<and> sorted_wrt (<) (map kf_t (keyframes pr))
      \<and> list_all (\<lambda>k. 0 \<le> kf_t k \<and> 0 \<le> pos_mm k \<and> pos_mm k \<le> length_mm pr \<and> ease_ok (ease k))
            (keyframes pr))"

subsection \<open>The JSON form of a profile\<close>

text \<open>
  A preset is stored as \<^verbatim>\<open>json.loads(profile.model_dump_json())\<close> and read back with
  \<^verbatim>\<open>MotionProfile(**data)\<close>. The JSON value is modelled as a tree; the text form of
  a number is outside the model. The serialiser writes every declared field under its
  name; the parser reads the declared fields by name, takes the declared default for
  an absent optional one, ignores other keys and accepts only data of the declared
  type (pydantic's coercions from strings are not modelled).
\<close>

datatype json =
    JNull
  | JNumber real
  | JString string
  | JArray "json list"
  | JObject "(string \<times> json) list"

definition Ease_dump :: "Ease \<Rightarrow> json" where
  "Ease_dump e =
     JObject
       [(''type'', JString (case ease_type e of Linear \<Rightarrow> ''linear'' | Cubic_bezier \<Rightarrow> ''cubic-bezier'')),
        (''p'', case ease_p e of None \<Rightarrow> JNull | Some ps \<Rightarrow> JArray (map JNumber ps))]"

definition Keyframe_dump :: "Keyframe \<Rightarrow> json" where
  "Keyframe_dump k =
     JObject [(''t'', JNumber (kf_t k)), (''pos_mm'', JNumber (pos_mm k)), (''ease'', Ease_dump (ease k))]"

definition model_dump_json :: "MotionProfile \<Rightarrow> json" where
  "model_dump_json pr =
     JObject
       [(''length_mm'', JNumber (length_mm pr)),
        (''keyframes'', JArray (map Keyframe_dump (keyframes pr))),
        (''max_speed_mm_s'', JNumber (max_speed_mm_s pr)),
        (''max_accel_mm_s2'', JNumber (max_accel_mm_s2 pr))]"

definition parse_number :: "json \<Rightarrow> exn + real" where
  "parse_number j =
     (case j of JNumber x \<Rightarrow> Inr x | _ \<Rightarrow> Inl (ValidationError ''Input should be a valid number''))"

text \<open>A required field, and a field with a default.\<close>

definition required_number :: "(string \<times> json) list \<Rightarrow> string \<Rightarrow> exn + real" where
  "required_number flds name =
     (case map_of flds name of
        None \<Rightarrow> Inl (ValidationError ''Field required'')
      | Some j \<Rightarrow> parse_number j)"

definition optional_number :: "(string \<times> json) list \<Rightarrow> string \<Rightarrow> real \<Rightarrow> exn + real" where
  "optional_number flds name dflt =
     (case map_of flds name of None \<Rightarrow> Inr dflt | Some j \<Rightarrow> parse_number j)"

definition Ease_default :: Ease where
  "Ease_default = \<lparr>ease_type = Linear, ease_p = None\<rparr>"

definition Ease_parse :: "json \<Rightarrow> exn + Ease" where
  "Ease_parse j =
     (case j of
        JObject flds \<Rightarrow>
          (case (case map_of flds ''type'' of
                   None \<Rightarrow> Inr Linear
                 | Some (JString s) \<Rightarrow>
                     if s = ''linear'' then Inr Linear
                     else if s = ''cubic-bezier'' then Inr Cubic_bezier
                     else Inl (ValidationError ''Input should be linear or cubic-bezier'')
                 | Some _ \<Rightarrow> Inl (ValidationError ''Input should be linear or cubic-bezier'')) of
             Inl e \<Rightarrow> Inl e
           | Inr ty \<Rightarrow>
               (case (case map_of flds ''p'' of
                        None \<Rightarrow> Inr None
                      | Some JNull \<Rightarrow> Inr None
                      | Some (JArray xs) \<Rightarrow>
                          (case validate_list parse_number xs of
                             Inl e \<Rightarrow> Inl e
                           | Inr ps \<Rightarrow> Inr (Some ps))
                      | Some _ \<Rightarrow> Inl (ValidationError ''Input should be a valid list'')) of
                  Inl e \<Rightarrow> Inl e
                | Inr p \<Rightarrow> Inr \<lparr>ease_type = ty, ease_p = p\<rparr>))
      | _ \<Rightarrow> Inl (ValidationError ''Input should be a valid dictionary''))"

definition Keyframe_parse :: "json \<Rightarrow> exn + Keyframe" where
  "Keyframe_parse j =
     (case j of
        JObject flds \<Rightarrow>
          (case required_number flds ''t'' of
             Inl e \<Rightarrow> Inl e
           | Inr t \<Rightarrow>
               (case required_number flds ''pos_mm'' of
                  Inl e \<Rightarrow> Inl e
                | Inr pos \<Rightarrow>
                    (case (case map_of flds ''ease'' of
                             None \<Rightarrow> Inr Ease_default
                           | Some je \<Rightarrow> Ease_parse je) of
                       Inl e \<Rightarrow> Inl e
                     | Inr ea \<Rightarrow> Inr \<lparr>kf_t = t, pos_mm = pos, ease = ea\<rparr>)))
      | _ \<Rightarrow> Inl (ValidationError ''Input should be a valid dictionary''))"

definition MotionProfile_parse :: "json \<Rightarrow> exn + MotionProfile" where
  "MotionProfile_parse j =
     (case j of
        JObject flds \<Rightarrow>
          (case required_number flds ''length_mm'' of
             Inl e \<Rightarrow> Inl e
           | Inr len \<Rightarrow>
               (case (case map_of flds ''keyframes'' of
                        Some (JArray js) \<Rightarrow> validate_list Keyframe_parse js
                      | Some _ \<Rightarrow> Inl (ValidationError ''Input should be a valid list'')
                      | None \<Rightarrow> Inl (ValidationError ''Field required'')) of
                  Inl e \<Rightarrow> Inl e
                | Inr kfs \<Rightarrow>
                    (case optional_number flds ''max_speed_mm_s'' 120 of
                       Inl e \<Rightarrow> Inl e
                     | Inr spd \<Rightarrow>
                         (case optional_number flds ''max_accel_mm_s2'' 300 of
                            Inl e \<Rightarrow> Inl e
                          | Inr acc \<Rightarrow>
                              Inr \<lparr>length_mm = len, keyframes = kfs, max_speed_mm_s = spd,
                                   max_accel_mm_s2 = acc\<rparr>))))
      | _ \<Rightarrow> Inl (ValidationError ''Input should be a valid dictionary''))"

text \<open>\<^verbatim>\<open>MotionProfile(**data)\<close>: the flds are read, then validated.\<close>

definition MotionProfile_from_json :: "json \<Rightarrow> exn + MotionProfile" where
  "MotionProfile_from_json j =
     (case MotionProfile_parse j of
        Inl e \<Rightarrow> Inl e
      | Inr raw \<Rightarrow> MotionProfile_new raw)"

section \<open>The planner (planner.py)\<close>

text \<open>
  \<^verbatim>\<open>_ease_fn\<close>. The unpacking \<^verbatim>\<open>x1, y1, x2, y2 = e.p\<close> raises on \<^verbatim>\<open>None\<close> and on a
  list of another length (the text of that \<^verbatim>\<open>ValueError\<close> is shortened).
\<close>

definition ease_fn :: "Keyframe \<Rightarrow> exn + (real \<Rightarrow> real)" where
  "ease_fn kf =
     (let e = ease kf in
      case ease_type e of
        Linear \<Rightarrow> Inr linear_ease
      | Cubic_bezier \<Rightarrow>
          (case ease_p e of
             None \<Rightarrow> Inl TypeError
           | Some [x1, y1, x2, y2] \<Rightarrow> Inr (sample \<lparr>p1x = x1, p1y = y1, p2x = x2, p2y = y2\<rparr>)
           | Some _ \<Rightarrow> Inl (ValueError ''wrong number of values to unpack (expected 4)'')))"

text \<open>
  The inner loop
  \<^verbatim>\<open>while seg_start_idx < len(kfs) - 2 and t > kfs[seg_start_idx + 1].t\<close>.
\<close>

function find_segment :: "Keyframe list \<Rightarrow> nat \<Rightarrow> real \<Rightarrow> nat" where
  "find_segment kfs seg_start_idx t =
     (if seg_start_idx + 2 < length kfs \<and> t > kf_t (kfs ! (seg_start_idx + 1))
      then find_segment kfs (seg_start_idx + 1) t
      else seg_start_idx)"
  by pat_completeness auto
termination
  by (relation "measure (\<lambda>(kfs, i, t). length kfs - i)") auto

declare find_segment.simps [simp del]

text \<open>
  The body of the outer loop for one sample: the normalised time \<^verbatim>\<open>u\<close> of \<^verbatim>\<open>t\<close>
  in the segment from \<^verbatim>\<open>k0\<close> to \<^verbatim>\<open>k1\<close>, clamped to the unit interval, then the
  easing of the arrival keyframe, then the position.
\<close>

definition interpolate :: "Keyframe \<Rightarrow> Keyframe \<Rightarrow> real \<Rightarrow> exn + real" where
  "interpolate k0 k1 t =
     (let u = (if kf_t k1 = kf_t k0 then 0 else (t - kf_t k0) / (kf_t k1 - kf_t k0));
          u = (if u < 0 then 0 else if u > 1 then 1 else u)
      in case ease_fn k1 of
           Inl e \<Rightarrow> Inl e
         | Inr f \<Rightarrow> Inr (pos_mm k0 + (pos_mm k1 - pos_mm k0) * f u))"

text \<open>
  The outer loop \<^verbatim>\<open>while t <= total_t + 1e-9\<close>. With \<^verbatim>\<open>dt <= 0\<close> it never ends:
  the result is then \<^const>\<open>None\<close>. \<^verbatim>\<open>kfs[seg_start_idx + 1]\<close> raises when the list
  has fewer than two keyframes.
\<close>

partial_function (option) sample_loop ::
  "Keyframe list \<Rightarrow> real \<Rightarrow> real \<Rightarrow> nat \<Rightarrow> real \<Rightarrow> real list \<Rightarrow> real list
     \<Rightarrow> (exn + real list \<times> real list) option" where
  "sample_loop kfs total_t dt seg_start_idx t times_l pos =
     (if t \<le> total_t + 1 / 10 ^ 9 then
        (let idx = find_segment kfs seg_start_idx t in
         if length kfs \<le> idx + 1 then Some (Inl IndexError)
         else
           case interpolate (kfs ! idx) (kfs ! (idx + 1)) t of
             Inl e \<Rightarrow> Some (Inl e)
           | Inr y \<Rightarrow> sample_loop kfs total_t dt idx (t + dt) (times_l @ [t]) (pos @ [y]))
      else Some (Inr (times_l, pos)))"

declare sample_loop.simps [code]

text \<open>
  \<^verbatim>\<open>sample_profile\<close>: \<^verbatim>\<open>kfs[-1]\<close> raises on the empty list; after the loop the
  final keyframe is appended when the last sampled time is earlier.
\<close>

definition sample_profile :: "MotionProfile \<Rightarrow> real \<Rightarrow> (exn + real list \<times> real list) option" where
  "sample_profile profile dt =
     (let kfs = keyframes profile in
      if kfs = [] then Some (Inl IndexError)
      else
        let total_t = kf_t (last kfs);
            total_t = (if total_t \<le> 0 then 0.01 else total_t)
        in case sample_loop kfs total_t dt 0 0 [] [] of
             None \<Rightarrow> None
           | Some (Inl e) \<Rightarrow> Some (Inl e)
           | Some (Inr (times_l, pos)) \<Rightarrow>
               if times_l = [] then Some (Inl IndexError)
               else if last times_l < kf_t (last kfs)
               then Some (Inr (times_l @ [kf_t (last kfs)], pos @ [pos_mm (last kfs)]))
               else Some (Inr (times_l, pos)))"

text \<open>
  Two predicates for stating what the sampler guarantees. \<open>ease_bounded\<close>: a
  cubic-bezier ease whose control values \<open>y1\<close> and \<open>y2\<close> lie in the unit interval
  (a linear ease always). \<open>within_segment\<close>: the sample \<open>(t, y)\<close> lies in some
  keyframe segment \<open>[i, i + 1]\<close> (before the first keyframe it counts to the first
  segment, after the last to the last) and \<open>y\<close> is between the positions of the
  segment's two keyframes.
\<close>

definition ease_bounded :: "Ease \<Rightarrow> bool" where
  "ease_bounded e =
     (case ease_type e of
        Linear \<Rightarrow> True
      | Cubic_bezier \<Rightarrow>
          (case ease_p e of
             Some [x1, y1, x2, y2] \<Rightarrow> 0 \<le> y1 \<and> y1 \<le> 1 \<and> 0 \<le> y2 \<and> y2 \<le> 1
           | _ \<Rightarrow> False))"

definition within_segment :: "Keyframe list \<Rightarrow> real \<Rightarrow> real \<Rightarrow> bool" where
  "within_segment kfs t y =
     (\<exists>i < length kfs - 1.
        (i = 0 \<or> kf_t (kfs ! i) < t)
        \<and> (t \<le> kf_t (kfs ! (i + 1)) \<or> i + 2 = length kfs)
        \<and> min (pos_mm (kfs ! i)) (pos_mm (kfs ! (i + 1))) \<le> y
        \<and> y \<le> max (pos_mm (kfs ! i)) (pos_mm (kfs ! (i + 1))))"

section \<open>Configuration (config.py)\<close>

text \<open>
  \<^verbatim>\<open>SliderConfig\<close> without the GPIO pin numbers. Its two motion limits are named
  \<open>cfg_max_speed_mm_s\<close> and \<open>cfg_max_accel_mm_s2\<close> here, since the profile has fields of
  the same names.
\<close>

record SliderConfig =
  steps_per_rev :: int
  microstep :: int
  lead_mm_per_rev :: real
  travel_mm :: real
  cfg_max_speed_mm_s :: real
  cfg_max_accel_mm_s2 :: real
  step_pulse_us :: int
  invert_endstops :: bool

text \<open>
  The property \<^verbatim>\<open>steps_per_mm\<close>, read once by the controller's constructor. With
  \<^verbatim>\<open>lead_mm_per_rev = 0\<close> that constructor raises, so no controller exists for such a
  configuration (in HOL the quotient is then 0).
\<close>

definition steps_per_mm :: "SliderConfig \<Rightarrow> real" where
  "steps_per_mm cfg = real_of_int (steps_per_rev cfg * microstep cfg) / lead_mm_per_rev cfg"

text \<open>The defaults of the dataclass; \<^verbatim>\<open>load_config\<close> can override the travel and the limits.\<close>

definition default_config :: SliderConfig where
  "default_config =
     \<lparr>steps_per_rev = 200, microstep = 16, lead_mm_per_rev = 8, travel_mm = 1200,
      cfg_max_speed_mm_s = 120, cfg_max_accel_mm_s2 = 300, step_pulse_us = 4,
      invert_endstops = False\<rparr>"

section \<open>The controller (manager.py)\<close>

subsection \<open>State and environment\<close>

text \<open>
  Python's \<^verbatim>\<open>round\<close> on a float rounds half to even and returns an \<^verbatim>\<open>int\<close>.
\<close>

definition py_round :: "real \<Rightarrow> int" where
  "py_round x =
     (let f = \<lfloor>x\<rfloor>; r = x - of_int f in
      if r < 1 / 2 then f
      else if 1 / 2 < r then f + 1
      else if even f then f else f + 1)"

datatype status = Idle | Homing | Jogging | Priming | Running | Stopped | Error

text \<open>
  The fields of \<^verbatim>\<open>SliderController\<close> that the worker writes, and the state of the
  driver as \<^verbatim>\<open>SimulatorDriver\<close> keeps it (\<open>enabled\<close>, \<open>dir_positive\<close>). Two counters
  are added: \<open>pulses\<close> counts the step pulses the driver has emitted (as the simulator,
  it emits none while disabled), and \<open>clock\<close> counts the observations the worker has
  made of its environment.
\<close>

record controller =
  current_pos_mm :: real
  homed :: bool
  status :: status
  error :: "string option"
  progress :: real
  enabled :: bool
  dir_positive :: bool
  pulses :: nat
  clock :: nat

text \<open>
  What the worker reads from outside: the stop flag (set by \<^verbatim>\<open>stop()\<close> on another
  thread), the two endstops and the wall clock. The \<open>k\<close>-th observation the worker
  makes sees the values at index \<open>k\<close>; \<^verbatim>\<open>time.sleep\<close> changes nothing in the state.
\<close>

record environment =
  stop_is_set :: "nat \<Rightarrow> bool"
  min_pressed :: "nat \<Rightarrow> bool"
  max_pressed :: "nat \<Rightarrow> bool"
  perf_counter :: "nat \<Rightarrow> real"

datatype outcome = Done controller | Raised exn controller

definition observe :: "controller \<Rightarrow> controller" where
  "observe s = s\<lparr>clock := Suc (clock s)\<rparr>"

definition pulse_step :: "controller \<Rightarrow> controller" where
  "pulse_step s = (if enabled s then s\<lparr>pulses := Suc (pulses s)\<rparr> else s)"

text \<open>The clamp \<^verbatim>\<open>max(0.0, min(x, self.cfg.travel_mm))\<close>.\<close>

definition clamp_travel :: "SliderConfig \<Rightarrow> real \<Rightarrow> real" where
  "clamp_travel cfg x = max 0 (min x (travel_mm cfg))"

subsection \<open>Low-level movement helpers\<close>

text \<open>
  The loop \<^verbatim>\<open>for i in range(steps_total)\<close> of \<^verbatim>\<open>_relative_move\<close>. Exactly one
  endstop is read in each iteration: the one in the direction of travel.
\<close>

function relative_move_loop ::
  "environment \<Rightarrow> SliderConfig \<Rightarrow> bool \<Rightarrow> nat \<Rightarrow> nat \<Rightarrow> controller \<Rightarrow> outcome" where
  "relative_move_loop env cfg direction_positive steps_total i s =
     (if i < steps_total then
        if stop_is_set env (clock s) then Done (observe s)
        else
          let s1 = observe s;
              pressed = (if direction_positive then max_pressed env (clock s1)
                         else min_pressed env (clock s1));
              s2 = observe s1
          in if pressed then Done s2
             else
               let s3 = pulse_step s2 in
               if steps_per_mm cfg = 0 then Raised ZeroDivisionError s3
               else relative_move_loop env cfg direction_positive steps_total (Suc i)
                      (s3\<lparr>current_pos_mm := current_pos_mm s3
                            + (if direction_positive then 1 else - 1) / steps_per_mm cfg\<rparr>)
      else Done s)"
  by pat_completeness auto
termination
  by (relation "measure (\<lambda>(env, cfg, d, n, i, s). n - i)") auto

declare relative_move_loop.simps [simp del]

text \<open>
  \<^verbatim>\<open>_relative_move\<close>. \<^verbatim>\<open>1.0 / steps_per_s\<close> raises when the product is zero. The
  period computed from it only sets the length of the sleeps.
\<close>

definition relative_move ::
  "environment \<Rightarrow> SliderConfig \<Rightarrow> real \<Rightarrow> real \<Rightarrow> controller \<Rightarrow> outcome" where
  "relative_move env cfg distance_mm speed_mm_s s =
     (let target = clamp_travel cfg (current_pos_mm s + distance_mm);
          distance_mm = target - current_pos_mm s
      in if \<bar>distance_mm\<bar> < 1 / 10 ^ 6 then Done s
         else
           let steps_total = py_round (\<bar>distance_mm\<bar> * steps_per_mm cfg);
               direction_positive = (distance_mm > 0);
               s1 = s\<lparr>dir_positive := direction_positive\<rparr>;
               speed_mm_s = max 1 (min speed_mm_s (cfg_max_speed_mm_s cfg));
               steps_per_s = speed_mm_s * steps_per_mm cfg
           in if steps_per_s = 0 then Raised ZeroDivisionError s1
              else relative_move_loop env cfg direction_positive (nat steps_total) 0 s1)"

definition move_to_position ::
  "environment \<Rightarrow> SliderConfig \<Rightarrow> real \<Rightarrow> real \<Rightarrow> controller \<Rightarrow> outcome" where
  "move_to_position env cfg target_pos_mm max_speed s =
     (let delta_mm = target_pos_mm - current_pos_mm s in
      if \<bar>delta_mm\<bar> < 0.001 then Done s
      else relative_move env cfg delta_mm max_speed s)"

text \<open>The loop \<^verbatim>\<open>for i in range(steps_limit)\<close> of \<^verbatim>\<open>_seek_endstop\<close>.\<close>

function seek_loop ::
  "environment \<Rightarrow> SliderConfig \<Rightarrow> bool \<Rightarrow> nat \<Rightarrow> nat \<Rightarrow> controller \<Rightarrow> outcome" where
  "seek_loop env cfg min_endstop steps_limit i s =
     (if i < steps_limit then
        if stop_is_set env (clock s) then Done (observe s)
        else
          let s1 = observe s;
              pressed = (if min_endstop then min_pressed env (clock s1)
                         else max_pressed env (clock s1));
              s2 = observe s1
          in if pressed then Done s2
             else
               let s3 = pulse_step s2 in
               if steps_per_mm cfg = 0 then Raised ZeroDivisionError s3
               else seek_loop env cfg min_endstop steps_limit (Suc i)
                      (s3\<lparr>current_pos_mm := clamp_travel cfg (current_pos_mm s3
                            + (if \<not> min_endstop then 1 else - 1) / steps_per_mm cfg)\<rparr>)
      else Done s)"
  by pat_completeness auto
termination
  by (relation "measure (\<lambda>(env, cfg, m, n, i, s). n - i)") auto

declare seek_loop.simps [simp del]

definition seek_endstop ::
  "environment \<Rightarrow> SliderConfig \<Rightarrow> bool \<Rightarrow> real \<Rightarrow> real \<Rightarrow> controller \<Rightarrow> outcome" where
  "seek_endstop env cfg min_endstop speed_mm_s max_travel_mm s =
     (let direction_positive = (\<not> min_endstop);
          s1 = s\<lparr>dir_positive := direction_positive\<rparr>;
          steps_limit = py_round (\<bar>max_travel_mm\<bar> * steps_per_mm cfg)
      in seek_loop env cfg min_endstop (nat steps_limit) 0 s1)"

subsection \<open>Home, jog and prime\<close>

definition do_home :: "environment \<Rightarrow> SliderConfig \<Rightarrow> controller \<Rightarrow> outcome" where
  "do_home env cfg s =
     (let s1 = s\<lparr>status := Homing, enabled := True\<rparr> in
      case seek_endstop env cfg True (cfg_max_speed_mm_s cfg * 0.25) (travel_mm cfg + 10) s1 of
        Raised e s2 \<Rightarrow> Raised e s2
      | Done s2 \<Rightarrow>
          if stop_is_set env (clock s2)
          then Done ((observe s2)\<lparr>enabled := False, status := Idle\<rparr>)
          else
            (case relative_move env cfg 5 30 (observe s2) of
               Raised e s3 \<Rightarrow> Raised e s3
             | Done s3 \<Rightarrow>
                 (case seek_endstop env cfg True 15 10 s3 of
                    Raised e s4 \<Rightarrow> Raised e s4
                  | Done s4 \<Rightarrow>
                      Done (s4\<lparr>current_pos_mm := 0, homed := True, enabled := False,
                                status := Idle\<rparr>))))"

definition do_jog ::
  "environment \<Rightarrow> SliderConfig \<Rightarrow> real \<Rightarrow> real \<Rightarrow> controller \<Rightarrow> outcome" where
  "do_jog env cfg distance_mm speed_mm_s s =
     (let s1 = s\<lparr>status := Jogging, enabled := True\<rparr>;
          spd = max 1 (min speed_mm_s (cfg_max_speed_mm_s cfg))
      in case relative_move env cfg distance_mm spd s1 of
           Raised e s2 \<Rightarrow> Raised e s2
         | Done s2 \<Rightarrow> Done (s2\<lparr>enabled := False, status := Idle\<rparr>))"

text \<open>
  The part of \<^verbatim>\<open>_do_prime\<close> after the automatic home. The \<^verbatim>\<open>try\<close> around the
  first keyframe falls back to 0; the \<^verbatim>\<open>finally\<close> disables the driver also when the
  move raises.
\<close>

definition prime_move ::
  "environment \<Rightarrow> SliderConfig \<Rightarrow> MotionProfile \<Rightarrow> controller \<Rightarrow> outcome" where
  "prime_move env cfg profile s =
     (let start_pos = (case keyframes profile of [] \<Rightarrow> 0 | k # ks \<Rightarrow> pos_mm k);
          start_pos = clamp_travel cfg start_pos
      in if \<bar>current_pos_mm s - start_pos\<bar> \<le> 0.5 then Done (s\<lparr>status := Idle\<rparr>)
         else
           let prime_speed = min 50 (cfg_max_speed_mm_s cfg);
               s1 = s\<lparr>enabled := True\<rparr>
           in case move_to_position env cfg start_pos prime_speed s1 of
                Raised e s2 \<Rightarrow> Raised e (s2\<lparr>enabled := False\<rparr>)
              | Done s2 \<Rightarrow> Done (s2\<lparr>enabled := False, status := Idle\<rparr>))"

definition do_prime ::
  "environment \<Rightarrow> SliderConfig \<Rightarrow> MotionProfile \<Rightarrow> controller \<Rightarrow> outcome" where
  "do_prime env cfg profile s =
     (let s1 = s\<lparr>status := Priming\<rparr> in
      if \<not> homed s1 then
        (case do_home env cfg s1 of
           Raised e s2 \<Rightarrow> Raised e s2
         | Done s2 \<Rightarrow>
             if stop_is_set env (clock s2) then Done ((observe s2)\<lparr>status := Stopped\<rparr>)
             else prime_move env cfg profile (observe s2))
      else prime_move env cfg profile s1)"

subsection \<open>Running a profile\<close>

text \<open>
  The inner loop \<^verbatim>\<open>while stepped < steps\<close> of \<^verbatim>\<open>_do_run_profile\<close>: the stop flag,
  the endstop in the direction of travel and the segment's deadline are checked before
  every pulse; the position is clamped after every pulse; the clock is read once more
  (\<^verbatim>\<open>now\<close>) before the sleep.
\<close>

function run_steps ::
  "environment \<Rightarrow> SliderConfig \<Rightarrow> bool \<Rightarrow> real \<Rightarrow> nat \<Rightarrow> nat \<Rightarrow> controller \<Rightarrow> outcome" where
  "run_steps env cfg direction_positive seg_deadline steps stepped s =
     (if stepped < steps then
        if stop_is_set env (clock s) then Done (observe s)
        else
          let s1 = observe s;
              pressed = (if direction_positive then max_pressed env (clock s1)
                         else min_pressed env (clock s1));
              s2 = observe s1
          in if pressed then Done s2
             else if perf_counter env (clock s2) \<ge> seg_deadline then Done (observe s2)
             else
               let s3 = pulse_step (observe s2) in
               if steps_per_mm cfg = 0 then Raised ZeroDivisionError s3
               else
                 let s4 = s3\<lparr>current_pos_mm := clamp_travel cfg (current_pos_mm s3
                               + (if direction_positive then 1 else - 1) / steps_per_mm cfg)\<rparr>;
                     s5 = observe s4
                 in run_steps env cfg direction_positive seg_deadline steps (Suc stepped) s5
      else Done s)"
  by pat_completeness auto
termination
  by (relation "measure (\<lambda>(env, cfg, d, dl, n, i, s). n - i)") auto

declare run_steps.simps [simp del]

text \<open>
  The outer loop \<^verbatim>\<open>for i in range(len(times) - 1)\<close>. \<^verbatim>\<open>1.0 / max_steps_per_s\<close>
  raises when the speed limit or the step resolution is zero; the periods only set
  the length of the sleeps. After the pulses the clock is read, and the stop flag too
  when the deadline is still ahead.
\<close>

function run_segments ::
  "environment \<Rightarrow> SliderConfig \<Rightarrow> real \<Rightarrow> real \<Rightarrow> real list \<Rightarrow> real list \<Rightarrow> nat
     \<Rightarrow> controller \<Rightarrow> outcome" where
  "run_segments env cfg start_time total_t times_l pos i s =
     (if i + 1 < length times_l then
        if stop_is_set env (clock s) then Done (observe s)
        else
          let s1 = observe s in
          if length pos \<le> i + 1 then Raised IndexError s1
          else
            let t0 = times_l ! i; t1 = times_l ! (i + 1);
                p0 = pos ! i; p1 = pos ! (i + 1);
                dp_mm = clamp_travel cfg p1 - clamp_travel cfg p0;
                steps = py_round (\<bar>dp_mm\<bar> * steps_per_mm cfg);
                seg_deadline = start_time + t1;
                direction_positive = (dp_mm > 0);
                s2 = s1\<lparr>dir_positive := direction_positive\<rparr>;
                max_steps_per_s = cfg_max_speed_mm_s cfg * steps_per_mm cfg
            in if max_steps_per_s = 0 then Raised ZeroDivisionError s2
               else
                 (case run_steps env cfg direction_positive seg_deadline (nat steps) 0 s2 of
                    Raised e s3 \<Rightarrow> Raised e s3
                  | Done s3 \<Rightarrow>
                      let now = perf_counter env (clock s3);
                          s4 = observe s3;
                          s5 = (if now < seg_deadline then observe s4 else s4)
                      in run_segments env cfg start_time total_t times_l pos (Suc i)
                           (s5\<lparr>progress := t1 / total_t\<rparr>))
      else Done s)"
  by pat_completeness auto
termination
  by (relation "measure (\<lambda>(env, cfg, st, tt, ts, ps, i, s). length ts - i)") auto

declare run_segments.simps [simp del]

text \<open>
  \<^verbatim>\<open>_do_run_profile\<close>. The sampling interval is the constant 0.02. The final
  \<^verbatim>\<open>try\<close> block leaves the position alone when \<^verbatim>\<open>pos[-1]\<close> raises.
\<close>

definition do_run_profile ::
  "environment \<Rightarrow> SliderConfig \<Rightarrow> MotionProfile \<Rightarrow> controller \<Rightarrow> outcome option" where
  "do_run_profile env cfg profile s =
     (let s1 = s\<lparr>status := Running, enabled := True\<rparr> in
      case sample_profile profile 0.02 of
        None \<Rightarrow> None
      | Some (Inl e) \<Rightarrow> Some (Raised e s1)
      | Some (Inr (times_l, pos)) \<Rightarrow>
          if times_l = [] then Some (Raised IndexError s1)
          else
            let total_t = max (1 / 10 ^ 6) (last times_l);
                start_time = perf_counter env (clock s1);
                s2 = observe s1
            in case run_segments env cfg start_time total_t times_l pos 0 s2 of
                 Raised e s3 \<Rightarrow> Some (Raised e s3)
               | Done s3 \<Rightarrow>
                   let s4 = (if pos = [] then s3
                             else s3\<lparr>current_pos_mm := clamp_travel cfg (last pos)\<rparr>);
                       s5 = s4\<lparr>enabled := False\<rparr>;
                       s6 = (observe s5)\<lparr>status := (if stop_is_set env (clock s5)
                                                     then Stopped else Idle)\<rparr>
                   in Some (Done (s6\<lparr>progress := (if status s6 = Idle then 1
                                                    else progress s6)\<rparr>)))"

subsection \<open>The worker\<close>

datatype command =
    Home
  | Jog real real
  | RunProfile MotionProfile
  | Prime MotionProfile

definition run_command ::
  "environment \<Rightarrow> SliderConfig \<Rightarrow> command \<Rightarrow> controller \<Rightarrow> outcome option" where
  "run_command env cfg cmd s =
     (case cmd of
        Home \<Rightarrow> Some (do_home env cfg s)
      | Jog distance_mm speed_mm_s \<Rightarrow> Some (do_jog env cfg distance_mm speed_mm_s s)
      | RunProfile profile \<Rightarrow> do_run_profile env cfg profile s
      | Prime profile \<Rightarrow> Some (do_prime env cfg profile s))"

text \<open>
  One turn of \<^verbatim>\<open>_worker_loop\<close>: the stop flag is cleared (what is read of it from
  then on is the environment's), the error is reset, the command runs inside
  \<^verbatim>\<open>try\<close>, and \<^verbatim>\<open>except Exception\<close> records the failure. \<^const>\<open>None\<close> is a command
  that never returns.
\<close>

definition worker_iteration ::
  "environment \<Rightarrow> SliderConfig \<Rightarrow> command \<Rightarrow> controller \<Rightarrow> controller option" where
  "worker_iteration env cfg cmd s =
     (let s1 = s\<lparr>error := None\<rparr> in
      case run_command env cfg cmd s1 of
        None \<Rightarrow> None
      | Some (Done s2) \<Rightarrow> Some s2
      | Some (Raised e s2) \<Rightarrow>
          Some (s2\<lparr>error := Some (str_of e), status := Error, enabled := False\<rparr>))"

text \<open>
  The worker's \<^verbatim>\<open>while True\<close> over the commands it dequeues, in order. With the
  queue empty it blocks in \<^verbatim>\<open>get()\<close>: the state is then the one reached.
\<close>

fun worker_loop ::
  "environment \<Rightarrow> SliderConfig \<Rightarrow> command list \<Rightarrow> controller \<Rightarrow> controller option" where
  "worker_loop env cfg [] s = Some s"
| "worker_loop env cfg (cmd # cmds) s =
     (case worker_iteration env cfg cmd s of
        None \<Rightarrow> None
      | Some s' \<Rightarrow> worker_loop env cfg cmds s')"


text \<open>
  Every \<^verbatim>\<open>MotionProfile\<close> object has passed its constructor, so the profile of a
  queued run command is valid. (Prime reads only the first keyframe.)
\<close>

definition well_formed_command :: "command \<Rightarrow> bool" where
  "well_formed_command cmd =
     (case cmd of RunProfile profile \<Rightarrow> valid_profile profile | _ \<Rightarrow> True)"

section \<open>Concrete inputs\<close>


text \<open>All four control values zero: \<open>Bx(t) = By(t) = t\<^sup>3\<close>.\<close>

definition zero_bezier :: CubicBezier where
  "zero_bezier = \<lparr>p1x = 0, p1y = 0, p2x = 0, p2y = 0\<rparr>"


definition linear_kf :: "real \<Rightarrow> real \<Rightarrow> Keyframe" where
  "linear_kf t x = \<lparr>kf_t = t, pos_mm = x, ease = \<lparr>ease_type = Linear, ease_p = None\<rparr>\<rparr>"

definition bezier_kf :: "real \<Rightarrow> real \<Rightarrow> real list \<Rightarrow> Keyframe" where
  "bezier_kf t x ps = \<lparr>kf_t = t, pos_mm = x, ease = \<lparr>ease_type = Cubic_bezier, ease_p = Some ps\<rparr>\<rparr>"


text \<open>One second from 0 mm to 100 mm, eased by \<open>ease_in_out\<close>.\<close>

definition smooth_profile :: MotionProfile where
  "smooth_profile =
     \<lparr>length_mm = 1000,
      keyframes = [linear_kf 0 0, bezier_kf 1 100 [42 / 100, 0, 58 / 100, 1]],
      max_speed_mm_s = 120, max_accel_mm_s2 = 300\<rparr>"

text \<open>Two samples at the controller's interval: 0.005 mm in 0.02 s, which is two steps.\<close>

definition short_profile :: MotionProfile where
  "short_profile =
     \<lparr>length_mm = 100,
      keyframes = [linear_kf 0 0, linear_kf (2 / 100) (5 / 1000)],
      max_speed_mm_s = 120, max_accel_mm_s2 = 300\<rparr>"

text \<open>Scenario S3: keyframes at \<open>t = [0, 1, 1]\<close>.\<close>

definition repeated_time_profile :: MotionProfile where
  "repeated_time_profile =
     \<lparr>length_mm = 100,
      keyframes = [linear_kf 0 0, linear_kf 1 10, linear_kf 1 20],
      max_speed_mm_s = 120, max_accel_mm_s2 = 300\<rparr>"

text \<open>Two well-formed keyframes and a speed limit of zero.\<close>

definition zero_speed_profile :: MotionProfile where
  "zero_speed_profile =
     \<lparr>length_mm = 100,
      keyframes = [linear_kf 0 0, linear_kf 1 10],
      max_speed_mm_s = 0, max_accel_mm_s2 = 300\<rparr>"

text \<open>
  Environments: nothing happens; \<^verbatim>\<open>stop()\<close> is called while the worker is busy, so
  that the flag reads as set from the \<open>n\<close>-th observation on; the min endstop is
  pressed and \<^verbatim>\<open>stop()\<close> is called likewise.
\<close>

definition quiet_env :: environment where
  "quiet_env =
     \<lparr>stop_is_set = (\<lambda>k. False), min_pressed = (\<lambda>k. False), max_pressed = (\<lambda>k. False),
      perf_counter = (\<lambda>k. 0)\<rparr>"


definition at_min_stop_from :: "nat \<Rightarrow> environment" where
  "at_min_stop_from n =
     \<lparr>stop_is_set = (\<lambda>k. n \<le> k), min_pressed = (\<lambda>k. True), max_pressed = (\<lambda>k. False),
      perf_counter = (\<lambda>k. 0)\<rparr>"

text \<open>An idle controller at position \<open>x\<close>, homed or not.\<close>

definition idle_at :: "real \<Rightarrow> bool \<Rightarrow> controller" where
  "idle_at x h =
     \<lparr>current_pos_mm = x, homed = h, status = Idle, error = None, progress = 0,
      enabled = False, dir_positive = True, pulses = 0, clock = 0\<rparr>"


text \<open>The default configuration with \<^verbatim>\<open>SLIDER_MAX_SPEED=0\<close>.\<close>

definition zero_speed_config :: SliderConfig where
  "zero_speed_config =
     \<lparr>steps_per_rev = 200, microstep = 16, lead_mm_per_rev = 8, travel_mm = 1200,
      cfg_max_speed_mm_s = 0, cfg_max_accel_mm_s2 = 300, step_pulse_us = 4,
      invert_endstops = False\<rparr>"

text \<open>A profile that ends 0.002 mm from the lower travel bound.\<close>

definition tiny_profile :: MotionProfile where
  "tiny_profile =
     \<lparr>length_mm = 100,
      keyframes = [linear_kf 0 0, linear_kf (2 / 100) (2 / 1000)],
      max_speed_mm_s = 120, max_accel_mm_s2 = 300\<rparr>"

chapter \<open>Properties\<close>

section \<open>Easing\<close>

lemma linear_ease_range: "0 \<le> linear_ease u \<and> linear_ease u \<le> 1"
  by (simp add: linear_ease_def)

lemma linear_ease_one: "1 \<le> u \<Longrightarrow> linear_ease u = 1"
  by (simp add: linear_ease_def)

lemma newton_range: "0 \<le> t \<Longrightarrow> t \<le> 1 \<Longrightarrow> 0 \<le> newton n cb u t \<and> newton n cb u t \<le> 1"
  by (induction n arbitrary: t) (auto simp: Let_def)

lemma bisect_range:
  "0 \<le> lo \<Longrightarrow> lo \<le> 1 \<Longrightarrow> 0 \<le> hi \<Longrightarrow> hi \<le> 1 \<Longrightarrow> 0 \<le> t \<Longrightarrow> t \<le> 1
   \<Longrightarrow> 0 \<le> bisect n cb u lo hi t \<and> bisect n cb u lo hi t \<le> 1"
proof (induction n arbitrary: lo hi t)
  case 0
  then show ?case by simp
next
  case (Suc n)
  let ?lo = "if bx_fn cb t < u then t else lo"
  let ?hi = "if bx_fn cb t < u then hi else t"
  have b: "0 \<le> ?lo" "?lo \<le> 1" "0 \<le> ?hi" "?hi \<le> 1"
    using Suc.prems by auto
  then have m: "0 \<le> 0.5 * (?lo + ?hi)" "0.5 * (?lo + ?hi) \<le> 1"
    by (simp_all split: if_splits)
  show ?case
    using Suc.IH[OF b m] m by (simp add: Let_def)
qed

lemma by_fn_range:
  assumes "0 \<le> t" "t \<le> 1" "0 \<le> p1y cb" "p1y cb \<le> 1" "0 \<le> p2y cb" "p2y cb \<le> 1"
  shows "0 \<le> by_fn cb t \<and> by_fn cb t \<le> 1"
proof -
  define a where "a = 3 * (1 - t) * (1 - t) * t"
  define b where "b = 3 * (1 - t) * t * t"
  have a0: "0 \<le> a" and b0: "0 \<le> b"
    using assms by (simp_all add: a_def b_def)
  have eq: "by_fn cb t = a * p1y cb + b * p2y cb + t ^ 3"
    by (simp add: by_fn_def a_def b_def Let_def)
  have t3: "0 \<le> t ^ 3" using assms by simp
  have lower: "0 \<le> a * p1y cb + b * p2y cb + t ^ 3"
    using a0 b0 assms t3 by (simp add: add_nonneg_nonneg)
  have "a * p1y cb \<le> a" "b * p2y cb \<le> b"
    using a0 b0 assms by (simp_all add: mult_left_le)
  then have "a * p1y cb + b * p2y cb + t ^ 3 \<le> a + b + t ^ 3" by linarith
  also have "a + b + t ^ 3 = 1 - (1 - t) ^ 3"
    by (simp add: a_def b_def power3_eq_cube algebra_simps)
  also have "\<dots> \<le> 1" using assms by simp
  finally show ?thesis using lower eq by simp
qed



lemma sample_is_by:
  assumes "0 < u" "u < 1"
  shows "\<exists>t. 0 \<le> t \<and> t \<le> 1 \<and> sample cb u = by_fn cb t"
proof -
  have n: "0 \<le> newton 6 cb u u \<and> newton 6 cb u u \<le> 1"
    using assms by (intro newton_range) auto
  have b: "0 \<le> bisect 12 cb u 0 1 u \<and> bisect 12 cb u 0 1 u \<le> 1"
    using assms by (intro bisect_range) auto
  show ?thesis
    using assms n b by (auto simp: sample_def Let_def)
qed

lemma sample_range:
  assumes "0 \<le> p1y cb" "p1y cb \<le> 1" "0 \<le> p2y cb" "p2y cb \<le> 1"
  shows "0 \<le> sample cb u \<and> sample cb u \<le> 1"
proof (cases "0 < u \<and> u < 1")
  case True
  then obtain t where "0 \<le> t" "t \<le> 1" "sample cb u = by_fn cb t"
    using sample_is_by by blast
  then show ?thesis using by_fn_range[OF _ _ assms] by simp
next
  case False
  then show ?thesis by (auto simp: sample_def)
qed












text \<open>
  Beside the statement: the bisection moves \<open>t\<close> to the next midpoint before it tests
  the residual of the probe just made, so an early exit returns the midpoint, not the
  converged probe. With all four control values in the unit interval, \<open>sample\<close> can
  then decrease: for \<open>zero_bezier\<close> the exit comes at the second probe for
  \<open>u = 0.23607\<close>, at the fifth for \<open>u = 0.40395\<close>.
\<close>

lemma bisection_early_exit:
  "sample zero_bezier (23607 / 100000) = (323607 / 400000) ^ 3
   \<and> sample zero_bezier (8079 / 20000) = (92237 / 128000) ^ 3
   \<and> (23607 / 100000 :: real) < 8079 / 20000
   \<and> sample zero_bezier (8079 / 20000) < sample zero_bezier (23607 / 100000)"
proof -
  have a: "sample zero_bezier (23607 / 100000) = (323607 / 400000) ^ 3"
    by (simp add: sample_def zero_bezier_def bx_fn_def dx_fn_def by_fn_def eval_nat_numeral Let_def)
  have b: "sample zero_bezier (8079 / 20000) = (92237 / 128000) ^ 3"
    by (simp add: sample_def zero_bezier_def bx_fn_def dx_fn_def by_fn_def eval_nat_numeral Let_def)
  have c: "(92237 / 128000 :: real) ^ 3 < (323607 / 400000) ^ 3"
    by (rule power_strict_mono) simp_all
  show ?thesis unfolding a b using c by simp
qed

section \<open>The profile model\<close>

lemma validate_bezier_iff:
  "validate_bezier e = (if ease_ok e then Inr e else Inl (ValidationError ''cubic-bezier requires p=[x1,y1,x2,y2]''))"
  by (cases "ease_type e") (auto simp: validate_bezier_def ease_ok_def split: option.splits)

lemma Keyframe_new_Inr:
  "Keyframe_new k = Inr k' \<longleftrightarrow> k' = k \<and> 0 \<le> kf_t k \<and> ease_ok (ease k)"
  by (auto simp: Keyframe_new_def validate_bezier_iff split: if_splits)

lemma Keyframes_new_Inr:
  "validate_list Keyframe_new ks = Inr ks'
   \<longleftrightarrow> ks' = ks \<and> list_all (\<lambda>k. 0 \<le> kf_t k \<and> ease_ok (ease k)) ks"
proof (induction ks arbitrary: ks')
  case Nil
  then show ?case by auto
next
  case (Cons k ks)
  show ?case
  proof (cases "Keyframe_new k")
    case (Inl e)
    then have "\<not> (0 \<le> kf_t k \<and> ease_ok (ease k))"
      using Keyframe_new_Inr[of k k] by auto
    with Inl show ?thesis by auto
  next
    case (Inr k')
    then have k: "k' = k" "0 \<le> kf_t k" "ease_ok (ease k)"
      using Keyframe_new_Inr[of k k'] by auto
    show ?thesis
    proof (cases "validate_list Keyframe_new ks")
      case (Inl e)
      then have "\<not> list_all (\<lambda>k. 0 \<le> kf_t k \<and> ease_ok (ease k)) ks"
        using Cons.IH[of ks] by auto
      with Inl Inr show ?thesis by auto
    next
      case r: (Inr ks2)
      then have "ks2 = ks" "list_all (\<lambda>k. 0 \<le> kf_t k \<and> ease_ok (ease k)) ks"
        using Cons.IH[of ks2] by auto
      with r Inr k show ?thesis by auto
    qed
  qed
qed

lemma check_keyframes_None:
  "check_keyframes len last_t ks = None
   \<longleftrightarrow> sorted_wrt (<) (last_t # map kf_t ks) \<and> list_all (\<lambda>k. 0 \<le> pos_mm k \<and> pos_mm k \<le> len) ks"
proof (induction ks arbitrary: last_t)
  case Nil
  then show ?case by simp
next
  case (Cons k ks)
  show ?case
    using Cons.IH[of "kf_t k"] by (auto simp: not_le intro: less_trans)
qed

text \<open>The conditions under which the constructor accepts its input.\<close>

lemma MotionProfile_new_Inr:
  "MotionProfile_new raw = Inr pr \<longleftrightarrow>
     pr = raw\<lparr>keyframes := sort_key kf_t (keyframes raw)\<rparr>
     \<and> 0 < length_mm raw \<and> 0 < max_speed_mm_s raw \<and> 0 < max_accel_mm_s2 raw
     \<and> 2 \<le> length (keyframes raw)
     \<and> sorted_wrt (<) (map kf_t (sort_key kf_t (keyframes raw)))
     \<and> list_all (\<lambda>k. 0 \<le> kf_t k \<and> 0 \<le> pos_mm k \<and> pos_mm k \<le> length_mm raw \<and> ease_ok (ease k))
          (keyframes raw)"
proof (cases "validate_list Keyframe_new (keyframes raw)")
  case (Inl e)
  then have "\<not> list_all (\<lambda>k. 0 \<le> kf_t k \<and> ease_ok (ease k)) (keyframes raw)"
    using Keyframes_new_Inr[of "keyframes raw" "keyframes raw"] by auto
  then have "\<not> list_all (\<lambda>k. 0 \<le> kf_t k \<and> 0 \<le> pos_mm k \<and> pos_mm k \<le> length_mm raw \<and> ease_ok (ease k))
          (keyframes raw)"
    by (auto simp: list_all_iff)
  with Inl show ?thesis by (auto simp: MotionProfile_new_def)
next
  case (Inr kfs)
  then have k: "kfs = keyframes raw" and a: "list_all (\<lambda>k. 0 \<le> kf_t k \<and> ease_ok (ease k)) (keyframes raw)"
    using Keyframes_new_Inr[of "keyframes raw" kfs] by auto
  have same: "raw\<lparr>keyframes := keyframes raw\<rparr> = raw" by simp
  have m1: "\<forall>x\<in>set (map kf_t (sort_key kf_t (keyframes raw))). - 1 < x"
    using a by (auto simp: list_all_iff)
  have chk: "check_keyframes (length_mm raw) (- 1) (sort_key kf_t (keyframes raw)) = None
     \<longleftrightarrow> sorted_wrt (<) (map kf_t (sort_key kf_t (keyframes raw)))
         \<and> list_all (\<lambda>k. 0 \<le> pos_mm k \<and> pos_mm k \<le> length_mm raw) (keyframes raw)"
    unfolding check_keyframes_None using m1 by (auto simp: list_all_iff)
  have split: "list_all (\<lambda>k. 0 \<le> kf_t k \<and> 0 \<le> pos_mm k \<and> pos_mm k \<le> length_mm raw \<and> ease_ok (ease k))
          (keyframes raw) \<longleftrightarrow> list_all (\<lambda>k. 0 \<le> pos_mm k \<and> pos_mm k \<le> length_mm raw) (keyframes raw)"
    using a by (auto simp: list_all_iff)
  show ?thesis
    unfolding MotionProfile_new_def Inr k sum.case same validate_keyframes_def Let_def split
    using chk by (cases "check_keyframes (length_mm raw) (- 1) (sort_key kf_t (keyframes raw))")
      (auto simp: not_less not_le Suc_le_eq numeral_2_eq_2 length_Suc_conv)
qed

lemma MotionProfile_new_total:
  "MotionProfile_new raw = Inr (raw\<lparr>keyframes := sort_key kf_t (keyframes raw)\<rparr>)
   \<or> (\<exists>e. MotionProfile_new raw = Inl e)"
proof (cases "MotionProfile_new raw")
  case (Inl e)
  then show ?thesis by blast
next
  case (Inr pr)
  then show ?thesis using MotionProfile_new_Inr[of raw pr] by simp
qed

lemma valid_profile_iff: "valid_profile pr \<longleftrightarrow> MotionProfile_new pr = Inr pr"
proof
  assume v: "valid_profile pr"
  then have s: "sorted_wrt (<) (map kf_t (keyframes pr))" by (simp add: valid_profile_def)
  then have "sorted (map kf_t (keyframes pr))"
    by (rule sorted_wrt_mono_rel[rotated]) simp
  then have id: "sort_key kf_t (keyframes pr) = keyframes pr"
    by (rule sort_key_id_if_sorted)
  show "MotionProfile_new pr = Inr pr"
    unfolding MotionProfile_new_Inr id using v by (simp add: valid_profile_def)
next
  assume "MotionProfile_new pr = Inr pr"
  then have a: "pr = pr\<lparr>keyframes := sort_key kf_t (keyframes pr)\<rparr>"
     and b: "0 < length_mm pr \<and> 0 < max_speed_mm_s pr \<and> 0 < max_accel_mm_s2 pr
     \<and> 2 \<le> length (keyframes pr)
     \<and> sorted_wrt (<) (map kf_t (sort_key kf_t (keyframes pr)))
     \<and> list_all (\<lambda>k. 0 \<le> kf_t k \<and> 0 \<le> pos_mm k \<and> pos_mm k \<le> length_mm pr \<and> ease_ok (ease k))
          (keyframes pr)"
    unfolding MotionProfile_new_Inr by blast+
  from a have "keyframes pr = sort_key kf_t (keyframes pr)"
    by (metis MotionProfile.select_convs(2) MotionProfile.surjective MotionProfile.update_convs(2))
  with b show "valid_profile pr" by (simp add: valid_profile_def)
qed

lemma constructed_valid:
  assumes "MotionProfile_new raw = Inr pr"
  shows "valid_profile pr"
proof -
  from assms have a: "pr = raw\<lparr>keyframes := sort_key kf_t (keyframes raw)\<rparr>"
     and b: "0 < length_mm raw \<and> 0 < max_speed_mm_s raw \<and> 0 < max_accel_mm_s2 raw
     \<and> 2 \<le> length (keyframes raw)
     \<and> sorted_wrt (<) (map kf_t (sort_key kf_t (keyframes raw)))
     \<and> list_all (\<lambda>k. 0 \<le> kf_t k \<and> 0 \<le> pos_mm k \<and> pos_mm k \<le> length_mm raw \<and> ease_ok (ease k))
          (keyframes raw)"
    unfolding MotionProfile_new_Inr by blast+
  show ?thesis
    unfolding valid_profile_def a using b by (simp add: list_all_iff)
qed

text \<open>
  Claim C7, as amended. Constructing a \<^verbatim>\<open>MotionProfile\<close> fails with a validation
  error if and only if at least one of these holds: fewer than two keyframes; a
  keyframe's position outside \<open>[0, length_mm]\<close>; a cubic-bezier ease without exactly
  four control values; \<open>length_mm\<close>, \<open>max_speed_mm_s\<close> or \<open>max_accel_mm_s2\<close> not
  positive; a keyframe's time negative; after the stable sort by time, a keyframe's
  time not strictly greater than its predecessor's. Otherwise the constructor
  returns the profile with its keyframes sorted by time.
\<close>

theorem MotionProfile_new_rejects_iff:
  "((\<exists>e. MotionProfile_new raw = Inl e) \<longleftrightarrow>
      (length (keyframes raw) < 2
       \<or> list_ex (\<lambda>k. pos_mm k < 0 \<or> length_mm raw < pos_mm k) (keyframes raw)
       \<or> list_ex (\<lambda>k. \<not> ease_ok (ease k)) (keyframes raw)
       \<or> length_mm raw \<le> 0 \<or> max_speed_mm_s raw \<le> 0 \<or> max_accel_mm_s2 raw \<le> 0
       \<or> list_ex (\<lambda>k. kf_t k < 0) (keyframes raw)
       \<or> \<not> sorted_wrt (<) (map kf_t (sort_key kf_t (keyframes raw)))))
   \<and> (MotionProfile_new raw = Inr (raw\<lparr>keyframes := sort_key kf_t (keyframes raw)\<rparr>)
        \<or> (\<exists>e. MotionProfile_new raw = Inl e))"
proof -
  let ?ok = "raw\<lparr>keyframes := sort_key kf_t (keyframes raw)\<rparr>"
  have acc: "MotionProfile_new raw = Inr ?ok \<longleftrightarrow>
     0 < length_mm raw \<and> 0 < max_speed_mm_s raw \<and> 0 < max_accel_mm_s2 raw
     \<and> 2 \<le> length (keyframes raw)
     \<and> sorted_wrt (<) (map kf_t (sort_key kf_t (keyframes raw)))
     \<and> list_all (\<lambda>k. 0 \<le> kf_t k \<and> 0 \<le> pos_mm k \<and> pos_mm k \<le> length_mm raw \<and> ease_ok (ease k))
          (keyframes raw)"
    unfolding MotionProfile_new_Inr by simp
  have tot: "MotionProfile_new raw = Inr ?ok \<or> (\<exists>e. MotionProfile_new raw = Inl e)"
    by (rule MotionProfile_new_total)
  have excl: "(\<exists>e. MotionProfile_new raw = Inl e) \<longleftrightarrow> MotionProfile_new raw \<noteq> Inr ?ok"
    using tot by auto
  show ?thesis
    unfolding excl acc using tot
    by (auto simp: list_all_iff list_ex_iff not_less not_le)
qed


text \<open>
  The statement at scenario S3: keyframes at \<open>t = [0, 1, 1]\<close> are rejected.
\<close>

theorem repeated_time_rejected:
  "(\<exists>e. MotionProfile_new repeated_time_profile = Inl e)
   \<and> map kf_t (sort_key kf_t (keyframes repeated_time_profile)) = [0, 1, 1]"
proof -
  have "\<not> sorted_wrt (<) (map kf_t (sort_key kf_t (keyframes repeated_time_profile)))"
    by (simp add: repeated_time_profile_def linear_kf_def)
  with MotionProfile_new_rejects_iff[of repeated_time_profile]
  have "\<exists>e. MotionProfile_new repeated_time_profile = Inl e" by blast
  moreover have "map kf_t (sort_key kf_t (keyframes repeated_time_profile)) = [0, 1, 1]"
    by (simp add: repeated_time_profile_def linear_kf_def)
  ultimately show ?thesis by blast
qed


text \<open>
  Claim C7 as it was stated fails: \<open>zero_speed_profile\<close> has two keyframes with
  strictly increasing times, positions within the length and linear eases, and the
  constructor rejects it for the field constraint on \<open>max_speed_mm_s\<close>.
\<close>

theorem zero_speed_rejected:
  "MotionProfile_new zero_speed_profile
     = Inl (ValidationError ''max_speed_mm_s: Input should be greater than 0'')
   \<and> \<not> length (keyframes zero_speed_profile) < 2
   \<and> sorted_wrt (<) (map kf_t (sort_key kf_t (keyframes zero_speed_profile)))
   \<and> list_all (\<lambda>k. 0 \<le> pos_mm k \<and> pos_mm k \<le> length_mm zero_speed_profile)
        (keyframes zero_speed_profile)
   \<and> list_all (\<lambda>k. ease_type (ease k) = Linear) (keyframes zero_speed_profile)"
  by (simp add: MotionProfile_new_def zero_speed_profile_def linear_kf_def Keyframe_new_def
      validate_bezier_def)


lemma parse_numbers: "validate_list parse_number (map JNumber xs) = Inr xs"
  by (induction xs) (simp_all add: parse_number_def)

lemma Ease_parse_dump: "Ease_parse (Ease_dump e) = Inr e"
proof (cases "ease_type e")
  case Linear
  then show ?thesis
    by (cases "ease_p e") (simp_all add: Ease_parse_def Ease_dump_def parse_numbers)
next
  case Cubic_bezier
  then show ?thesis
    by (cases "ease_p e") (simp_all add: Ease_parse_def Ease_dump_def parse_numbers)
qed

lemma Keyframe_parse_dump: "Keyframe_parse (Keyframe_dump k) = Inr k"
  by (simp add: Keyframe_parse_def Keyframe_dump_def required_number_def parse_number_def
      Ease_parse_dump)

lemma Keyframes_parse_dump: "validate_list Keyframe_parse (map Keyframe_dump ks) = Inr ks"
  by (induction ks) (simp_all add: Keyframe_parse_dump)

lemma MotionProfile_parse_dump: "MotionProfile_parse (model_dump_json pr) = Inr pr"
  by (simp add: MotionProfile_parse_def model_dump_json_def required_number_def
      optional_number_def parse_number_def Keyframes_parse_dump)

text \<open>
  Claim C9. For every valid profile, serialising it to JSON and reading that JSON back
  through the constructor yields the same profile. (A valid profile's keyframes are
  already in the order of the validator's stable sort, and every profile the
  constructor returns is valid: \<open>constructed_valid\<close>.)
\<close>

theorem json_round_trip:
  assumes "valid_profile profile"
  shows "MotionProfile_from_json (model_dump_json profile) = Inr profile"
  using assms by (simp add: MotionProfile_from_json_def MotionProfile_parse_dump valid_profile_iff)


text \<open>
  The statement at \<open>smooth_profile\<close>.
\<close>

theorem json_round_trip_witness:
  "valid_profile smooth_profile
   \<and> MotionProfile_from_json (model_dump_json smooth_profile) = Inr smooth_profile"
proof -
  have v: "valid_profile smooth_profile"
    by (simp add: valid_profile_def smooth_profile_def linear_kf_def bezier_kf_def ease_ok_def)
  from json_round_trip[OF v] v show ?thesis by blast
qed

section \<open>The planner\<close>

lemma find_segment_ge: "idx \<le> find_segment kfs idx t"
proof (induction kfs idx t rule: find_segment.induct)
  case (1 kfs i t)
  then show ?case by (subst find_segment.simps) auto
qed

lemma find_segment_bound: "idx + 2 \<le> length kfs \<Longrightarrow> find_segment kfs idx t + 2 \<le> length kfs"
proof (induction kfs idx t rule: find_segment.induct)
  case (1 kfs i t)
  then show ?case by (subst find_segment.simps) auto
qed

lemma find_segment_exit:
  "\<not> (find_segment kfs idx t + 2 < length kfs \<and> kf_t (kfs ! (find_segment kfs idx t + 1)) < t)"
proof (induction kfs idx t rule: find_segment.induct)
  case (1 kfs i t)
  show ?case
  proof (cases "i + 2 < length kfs \<and> t > kf_t (kfs ! (i + 1))")
    case True
    then have "find_segment kfs i t = find_segment kfs (i + 1) t"
      by (subst find_segment.simps) simp
    with 1 True show ?thesis by simp
  next
    case False
    then have "find_segment kfs i t = i"
      by (subst find_segment.simps) auto
    with False show ?thesis by auto
  qed
qed

lemma find_segment_left:
  "idx = 0 \<or> kf_t (kfs ! idx) < t
   \<Longrightarrow> find_segment kfs idx t = 0 \<or> kf_t (kfs ! find_segment kfs idx t) < t"
proof (induction kfs idx t rule: find_segment.induct)
  case (1 kfs i t)
  show ?case
  proof (cases "i + 2 < length kfs \<and> t > kf_t (kfs ! (i + 1))")
    case True
    then have "find_segment kfs i t = find_segment kfs (i + 1) t"
      by (subst find_segment.simps) simp
    with 1 True show ?thesis by simp
  next
    case False
    then have "find_segment kfs i t = i"
      by (subst find_segment.simps) auto
    with 1(2) show ?thesis by simp
  qed
qed

lemma sample_loop_rule:
  fixes I :: "nat \<Rightarrow> real \<Rightarrow> real list \<Rightarrow> real list \<Rightarrow> bool"
  assumes dt: "0 < dt"
    and init: "I idx t ts ps"
    and step: "\<And>idx t ts ps. I idx t ts ps \<Longrightarrow> t \<le> total_t + 1 / 10 ^ 9 \<Longrightarrow>
       find_segment kfs idx t + 1 < length kfs \<and>
       (\<exists>y. interpolate (kfs ! find_segment kfs idx t) (kfs ! (find_segment kfs idx t + 1)) t = Inr y
            \<and> I (find_segment kfs idx t) (t + dt) (ts @ [t]) (ps @ [y]))"
  shows "\<exists>idx' t' ts' ps'. sample_loop kfs total_t dt idx t ts ps = Some (Inr (ts', ps'))
          \<and> I idx' t' ts' ps' \<and> total_t + 1 / 10 ^ 9 < t'"
  using init
proof (induction "nat \<lceil>(total_t + 1 / 10 ^ 9 - t) / dt + 1\<rceil>" arbitrary: idx t ts ps rule: less_induct)
  case less
  show ?case
  proof (cases "t \<le> total_t + 1 / 10 ^ 9")
    case False
    then have "sample_loop kfs total_t dt idx t ts ps = Some (Inr (ts, ps))"
      by (subst sample_loop.simps) simp
    with False less.prems show ?thesis by force
  next
    case True
    let ?j = "find_segment kfs idx t"
    from step[OF less.prems True] obtain y where
      j: "?j + 1 < length kfs" and
      y: "interpolate (kfs ! ?j) (kfs ! (?j + 1)) t = Inr y" and
      I': "I ?j (t + dt) (ts @ [t]) (ps @ [y])"
      by blast
    have unfold: "sample_loop kfs total_t dt idx t ts ps
        = sample_loop kfs total_t dt ?j (t + dt) (ts @ [t]) (ps @ [y])"
      using True j y by (subst sample_loop.simps) (simp add: Let_def)
    have x0: "0 \<le> (total_t + 1 / 10 ^ 9 - t) / dt"
      using True dt by simp
    have "(total_t + 1 / 10 ^ 9 - (t + dt)) / dt + 1 = (total_t + 1 / 10 ^ 9 - t) / dt"
      using dt by (simp add: field_simps)
    then have "nat \<lceil>(total_t + 1 / 10 ^ 9 - (t + dt)) / dt + 1\<rceil>
        < nat \<lceil>(total_t + 1 / 10 ^ 9 - t) / dt + 1\<rceil>"
      using x0 by (simp add: ceiling_add_one)
    from less.hyps[OF this I'] unfold show ?thesis by simp
  qed
qed

lemma ease_fn_ok:
  assumes "ease_ok (ease k)"
  shows "\<exists>f. ease_fn k = Inr f \<and> f 1 = 1"
proof (cases "ease_type (ease k)")
  case Linear
  then show ?thesis by (simp add: ease_fn_def linear_ease_def)
next
  case Cubic_bezier
  with assms obtain ps where ps: "ease_p (ease k) = Some ps" "length ps = 4"
    by (auto simp: ease_ok_def split: option.splits)
  then obtain x1 y1 x2 y2 where "ps = [x1, y1, x2, y2]"
    by (auto simp: length_Suc_conv eval_nat_numeral)
  with ps Cubic_bezier show ?thesis
    by (simp add: ease_fn_def sample_def)
qed

lemma ease_fn_range:
  assumes "ease_ok (ease k)" "ease_bounded (ease k)" "ease_fn k = Inr f"
  shows "0 \<le> f u \<and> f u \<le> 1"
proof (cases "ease_type (ease k)")
  case Linear
  with assms show ?thesis by (auto simp: ease_fn_def linear_ease_def)
next
  case Cubic_bezier
  with assms(1) obtain ps where ps: "ease_p (ease k) = Some ps" "length ps = 4"
    by (auto simp: ease_ok_def split: option.splits)
  then obtain x1 y1 x2 y2 where l: "ps = [x1, y1, x2, y2]"
    by (auto simp: length_Suc_conv eval_nat_numeral)
  with ps Cubic_bezier assms(2) have y: "0 \<le> y1" "y1 \<le> 1" "0 \<le> y2" "y2 \<le> 1"
    by (simp_all add: ease_bounded_def)
  from ps l Cubic_bezier assms(3) have "f = sample \<lparr>p1x = x1, p1y = y1, p2x = x2, p2y = y2\<rparr>"
    by (simp add: ease_fn_def)
  then show ?thesis using sample_range[of "\<lparr>p1x = x1, p1y = y1, p2x = x2, p2y = y2\<rparr>" u] y by simp
qed

lemma interpolate_total:
  "ease_ok (ease k1) \<Longrightarrow> \<exists>y. interpolate k0 k1 t = Inr y"
  using ease_fn_ok[of k1] by (auto simp: interpolate_def Let_def)

lemma clamp_unit_high:
  fixes q :: real
  shows "1 \<le> q \<Longrightarrow> (if q < 0 then 0 else if q > 1 then 1 else q) = 1"
  by auto

lemma interpolate_end:
  assumes "ease_ok (ease k1)" "kf_t k0 < kf_t k1" "kf_t k1 \<le> t"
  shows "interpolate k0 k1 t = Inr (pos_mm k1)"
proof -
  from ease_fn_ok[OF assms(1)] obtain f where f: "ease_fn k1 = Inr f" "f 1 = 1" by blast
  have nz: "kf_t k1 \<noteq> kf_t k0" using assms(2) by simp
  have q: "1 \<le> (t - kf_t k0) / (kf_t k1 - kf_t k0)"
    using assms(2,3) by (simp add: field_simps)
  show ?thesis
    unfolding interpolate_def Let_def if_not_P[OF nz] clamp_unit_high[OF q] f sum.case
    by simp
qed

lemma convex_between:
  fixes a b c :: real
  assumes "0 \<le> c" "c \<le> 1"
  shows "min a b \<le> a + (b - a) * c \<and> a + (b - a) * c \<le> max a b"
proof (cases "a \<le> b")
  case True
  define d where "d = (b - a) * c"
  have "0 \<le> d" using True assms by (simp add: d_def)
  moreover have "d \<le> (b - a) * 1"
    unfolding d_def using True assms by (intro mult_left_mono) auto
  ultimately have "a \<le> a + d" "a + d \<le> b" by simp_all
  then show ?thesis using True by (simp add: d_def)
next
  case False
  define d where "d = (a - b) * c"
  have "0 \<le> d" using False assms by (simp add: d_def)
  moreover have "d \<le> (a - b) * 1"
    unfolding d_def using False assms by (intro mult_left_mono) auto
  moreover have "(b - a) * c = - d" by (simp add: d_def algebra_simps)
  ultimately have "b \<le> a + (b - a) * c" "a + (b - a) * c \<le> a" by simp_all
  then show ?thesis using False by simp
qed

lemma interpolate_between:
  assumes "ease_ok (ease k1)" "ease_bounded (ease k1)" "interpolate k0 k1 t = Inr y"
  shows "min (pos_mm k0) (pos_mm k1) \<le> y \<and> y \<le> max (pos_mm k0) (pos_mm k1)"
proof -
  from ease_fn_ok[OF assms(1)] obtain f where f: "ease_fn k1 = Inr f" by blast
  define u where "u = (let u = (if kf_t k1 = kf_t k0 then 0 else (t - kf_t k0) / (kf_t k1 - kf_t k0))
             in if u < 0 then 0 else if u > 1 then 1 else u)"
  have "y = pos_mm k0 + (pos_mm k1 - pos_mm k0) * f u"
    using assms(3) f by (simp add: interpolate_def u_def Let_def)
  with convex_between[of "f u" "pos_mm k0" "pos_mm k1"] ease_fn_range[OF assms(1,2) f, of u]
  show ?thesis by simp
qed

lemma sorted_wrt_less_last:
  fixes xs :: "real list"
  assumes "sorted_wrt (<) xs" "x \<in> set xs"
  shows "x \<le> last xs"
proof -
  from assms(2) obtain i where i: "i < length xs" "xs ! i = x"
    by (auto simp: in_set_conv_nth)
  have ne: "xs \<noteq> []" using assms(2) by auto
  show ?thesis
  proof (cases "i = length xs - 1")
    case True
    with i ne show ?thesis by (simp add: last_conv_nth)
  next
    case False
    with i have "i < length xs - 1" by simp
    with sorted_wrt_nth_less[OF assms(1) this] i ne show ?thesis
      by (simp add: last_conv_nth)
  qed
qed

lemma valid_profile_last_pos:
  assumes "valid_profile pr"
  shows "0 < kf_t (last (keyframes pr))"
proof -
  let ?kfs = "keyframes pr"
  let ?n = "length ?kfs"
  from assms have n: "2 \<le> ?n" and s: "sorted_wrt (<) (map kf_t ?kfs)"
    and a: "list_all (\<lambda>k. 0 \<le> kf_t k) ?kfs"
    by (auto simp: valid_profile_def list_all_iff)
  have lt: "0 < ?n" "?n - 1 < ?n" "0 < ?n - 1"
    using n by linarith+
  have "kf_t (?kfs ! 0) < kf_t (?kfs ! (?n - 1))"
    using sorted_wrt_nth_less[OF s, of 0 "?n - 1"] lt by simp
  moreover have "0 \<le> kf_t (?kfs ! 0)"
    using a lt(1) unfolding list_all_length by blast
  moreover have "last ?kfs = ?kfs ! (?n - 1)"
    using lt(1) by (intro last_conv_nth) auto
  ultimately show ?thesis by simp
qed

lemma sample_profile_result:
  assumes v: "valid_profile profile" and dt: "0 < dt"
  shows "\<exists>ts ps. sample_profile profile dt = Some (Inr (ts, ps))
           \<and> length ts = length ps \<and> ts \<noteq> [] \<and> sorted_wrt (<) ts
           \<and> kf_t (last (keyframes profile)) \<le> last ts
           \<and> last ps = pos_mm (last (keyframes profile))
           \<and> (list_all (\<lambda>k. ease_bounded (ease k)) (keyframes profile)
                \<longrightarrow> (\<forall>j<length ps. within_segment (keyframes profile) (ts ! j) (ps ! j)))"
proof -
  define kfs where "kfs = keyframes profile"
  define n where "n = length kfs"
  define T where "T = kf_t (last kfs)"
  define B where "B = list_all (\<lambda>k. ease_bounded (ease k)) kfs"
  from v have n2: "2 \<le> n" and srt: "sorted_wrt (<) (map kf_t kfs)"
    and ok: "\<And>i. i < n \<Longrightarrow> ease_ok (ease (kfs ! i))"
    by (auto simp: valid_profile_def kfs_def n_def list_all_length)
  have Tpos: "0 < T" using valid_profile_last_pos[OF v] by (simp add: T_def kfs_def)
  have last_nth: "last kfs = kfs ! (n - 1)"
    using n2 unfolding n_def by (intro last_conv_nth) auto
  have kt_less: "kf_t (kfs ! i) < kf_t (kfs ! j)" if "i < j" "j < n" for i j
    using sorted_wrt_nth_less[OF srt, of i j] that by (simp add: n_def)
  define I where "I = (\<lambda>idx t (ts :: real list) (ps :: real list).
      idx + 2 \<le> n \<and> (idx = 0 \<or> kf_t (kfs ! idx) < t)
      \<and> length ts = length ps \<and> sorted_wrt (<) ts \<and> (\<forall>x\<in>set ts. x < t)
      \<and> (ts = [] \<longrightarrow> t = 0)
      \<and> (ts \<noteq> [] \<longrightarrow> T \<le> last ts \<longrightarrow> last ps = pos_mm (last kfs))
      \<and> (B \<longrightarrow> (\<forall>j<length ps. within_segment kfs (ts ! j) (ps ! j))))"
  have init: "I 0 0 [] []"
    using n2 by (simp add: I_def)
  have step: "find_segment kfs idx t + 1 < length kfs \<and>
       (\<exists>y. interpolate (kfs ! find_segment kfs idx t) (kfs ! (find_segment kfs idx t + 1)) t = Inr y
            \<and> I (find_segment kfs idx t) (t + dt) (ts @ [t]) (ps @ [y]))"
    if inv: "I idx t ts ps" and "t \<le> T + 1 / 10 ^ 9" for idx t ts ps
  proof -
    define j where "j = find_segment kfs idx t"
    from inv have idx: "idx + 2 \<le> n" and left: "idx = 0 \<or> kf_t (kfs ! idx) < t"
      and len: "length ts = length ps" and sts: "sorted_wrt (<) ts" and lt: "\<forall>x\<in>set ts. x < t"
      and seg: "B \<longrightarrow> (\<forall>j<length ps. within_segment kfs (ts ! j) (ps ! j))"
      by (simp_all add: I_def)
    have j2: "j + 2 \<le> n"
      using find_segment_bound[of idx kfs t] idx by (simp add: j_def n_def)
    have jleft: "j = 0 \<or> kf_t (kfs ! j) < t"
      using find_segment_left[OF left] by (simp add: j_def)
    have jexit: "\<not> (j + 2 < n \<and> kf_t (kfs ! (j + 1)) < t)"
      using find_segment_exit[of kfs idx t] by (simp add: j_def n_def)
    from interpolate_total[OF ok, of "j + 1" "kfs ! j" t] j2
    obtain y where y: "interpolate (kfs ! j) (kfs ! (j + 1)) t = Inr y" by auto
    have last_case: "y = pos_mm (last kfs)" if "T \<le> t"
    proof -
      have "j + 2 = n"
      proof (rule ccontr)
        assume "j + 2 \<noteq> n"
        with j2 have a: "j + 2 < n" by simp
        then have "kf_t (kfs ! (j + 1)) < kf_t (kfs ! (n - 1))"
          by (intro kt_less) auto
        with that have "kf_t (kfs ! (j + 1)) < t" by (simp add: T_def last_nth)
        with a jexit show False by simp
      qed
      then have "j + 1 = n - 1" by simp
      then have e: "kfs ! (j + 1) = last kfs" by (simp only: last_nth)
      have "kf_t (kfs ! j) < kf_t (kfs ! (j + 1))"
        using j2 by (intro kt_less) auto
      from interpolate_end[OF ok this] j2 that y e show ?thesis
        by (simp add: T_def)
    qed
    have bound: "within_segment kfs t y" if B
    proof -
      have "ease_bounded (ease (kfs ! (j + 1)))"
        using that j2 by (simp add: B_def list_all_length n_def)
      from interpolate_between[OF ok this y] j2
      have "min (pos_mm (kfs ! j)) (pos_mm (kfs ! (j + 1))) \<le> y
            \<and> y \<le> max (pos_mm (kfs ! j)) (pos_mm (kfs ! (j + 1)))"
        by simp
      moreover have "t \<le> kf_t (kfs ! (j + 1)) \<or> j + 2 = n"
        using jexit j2 by auto
      moreover have "j < length kfs - 1" using j2 by (simp add: n_def)
      ultimately show ?thesis
        unfolding within_segment_def using jleft by (auto simp: n_def)
    qed
    have "I j (t + dt) (ts @ [t]) (ps @ [y])"
      unfolding I_def
    proof (intro conjI)
      show "j + 2 \<le> n" by (rule j2)
      show "j = 0 \<or> kf_t (kfs ! j) < t + dt" using jleft dt by auto
      show "length (ts @ [t]) = length (ps @ [y])" using len by simp
      show "sorted_wrt (<) (ts @ [t])" using sts lt by (simp add: sorted_wrt_append)
      show "\<forall>x\<in>set (ts @ [t]). x < t + dt" using lt dt by auto
      show "ts @ [t] = [] \<longrightarrow> t + dt = 0" by simp
      show "ts @ [t] \<noteq> [] \<longrightarrow> T \<le> last (ts @ [t]) \<longrightarrow> last (ps @ [y]) = pos_mm (last kfs)"
        using last_case by simp
      show "B \<longrightarrow> (\<forall>i<length (ps @ [y]). within_segment kfs ((ts @ [t]) ! i) ((ps @ [y]) ! i))"
        using seg bound len by (auto simp: nth_append less_Suc_eq)
    qed
    with y j2 show ?thesis by (simp add: j_def n_def)
  qed
  from sample_loop_rule[of dt I 0 0 "[]" "[]" T kfs, OF dt init step]
  obtain idx' t' ts' ps' where
    loop: "sample_loop kfs T dt 0 0 [] [] = Some (Inr (ts', ps'))"
    and inv: "I idx' t' ts' ps'" and exit: "T + 1 / 10 ^ 9 < t'"
    by blast
  from inv have len: "length ts' = length ps'" and sts: "sorted_wrt (<) ts'"
    and emp: "ts' = [] \<longrightarrow> t' = 0"
    and lastp: "ts' \<noteq> [] \<longrightarrow> T \<le> last ts' \<longrightarrow> last ps' = pos_mm (last kfs)"
    and seg: "B \<longrightarrow> (\<forall>j<length ps'. within_segment kfs (ts' ! j) (ps' ! j))"
    by (simp_all add: I_def)
  have ne: "ts' \<noteq> []" using emp exit Tpos by auto
  have kne: "kfs \<noteq> []" using n2 by (auto simp: n_def)
  show ?thesis
  proof (cases "last ts' < T")
    case True
    have sp: "sample_profile profile dt = Some (Inr (ts' @ [T], ps' @ [pos_mm (last kfs)]))"
      using loop ne kne Tpos True
      by (simp add: sample_profile_def Let_def kfs_def[symmetric] T_def[symmetric])
    have all_lt: "\<forall>x\<in>set ts'. x < T"
      using sorted_wrt_less_last[OF sts] True by fastforce
    have final: "within_segment kfs T (pos_mm (last kfs))"
    proof -
      have "kf_t (kfs ! (n - 2)) < kf_t (kfs ! (n - 1))"
        using n2 by (intro kt_less) auto
      moreover have "n - 2 < length kfs - 1" "n - 2 + 1 = n - 1" "n - 2 + 2 = length kfs"
        using n2 by (simp_all add: n_def)
      ultimately show ?thesis
        unfolding within_segment_def
        by (intro exI[of _ "n - 2"]) (simp add: T_def last_nth)
    qed
    have "B \<longrightarrow> (\<forall>j<length (ps' @ [pos_mm (last kfs)]).
            within_segment kfs ((ts' @ [T]) ! j) ((ps' @ [pos_mm (last kfs)]) ! j))"
      using seg final len by (auto simp: nth_append less_Suc_eq)
    moreover have "sorted_wrt (<) (ts' @ [T])"
      using sts all_lt by (simp add: sorted_wrt_append)
    ultimately show ?thesis
      using sp len by (simp add: kfs_def[symmetric] T_def B_def)
  next
    case False
    have sp: "sample_profile profile dt = Some (Inr (ts', ps'))"
      using loop ne kne Tpos False
      by (simp add: sample_profile_def Let_def kfs_def[symmetric] T_def[symmetric])
    from False lastp ne have "last ps' = pos_mm (last kfs)" by simp
    then show ?thesis
      using sp len ne sts seg False by (simp add: kfs_def[symmetric] T_def B_def)
  qed
qed













section \<open>The controller\<close>

lemma observe_simps [simp]:
  "clock (observe s) = Suc (clock s)" "enabled (observe s) = enabled s"
  "status (observe s) = status s" "error (observe s) = error s" "homed (observe s) = homed s"
  "progress (observe s) = progress s" "pulses (observe s) = pulses s"
  "current_pos_mm (observe s) = current_pos_mm s"
  by (simp_all add: observe_def)

lemma pulse_step_simps [simp]:
  "clock (pulse_step s) = clock s" "enabled (pulse_step s) = enabled s"
  "status (pulse_step s) = status s" "error (pulse_step s) = error s" "homed (pulse_step s) = homed s"
  "progress (pulse_step s) = progress s"
  "pulses (pulse_step s) = (if enabled s then Suc (pulses s) else pulses s)"
  "current_pos_mm (pulse_step s) = current_pos_mm s"
  by (simp_all add: pulse_step_def)






lemma spm_default: "steps_per_mm default_config = 400"
  by (simp add: steps_per_mm_def default_config_def)

lemma travel_default: "travel_mm default_config = 1200" "cfg_max_speed_mm_s default_config = 120"
  by (simp_all add: default_config_def)

lemma py_round_of_int: "py_round (of_int n) = n"
  by (simp add: py_round_def Let_def)

lemma py_round_numeral [simp]: "py_round (numeral n) = numeral n" "py_round 0 = 0"
  using py_round_of_int[of "numeral n"] py_round_of_int[of 0] by simp_all


subsection \<open>Jog\<close>







subsection \<open>Running a profile\<close>

lemma do_run_profile_cases:
  assumes sp: "sample_profile profile (2 / 100) = Some (Inr (times_l, pos))"
    and ne: "times_l \<noteq> []" "pos \<noteq> []"
  shows "(\<exists>e s3. run_segments env cfg (perf_counter env (clock s))
                   (max (1 / 10 ^ 6) (last times_l)) times_l pos 0
                   (observe (s\<lparr>status := Running, enabled := True\<rparr>)) = Raised e s3
                \<and> do_run_profile env cfg profile s = Some (Raised e s3))
         \<or> (\<exists>s3. run_segments env cfg (perf_counter env (clock s))
                   (max (1 / 10 ^ 6) (last times_l)) times_l pos 0
                   (observe (s\<lparr>status := Running, enabled := True\<rparr>)) = Done s3
                \<and> do_run_profile env cfg profile s
                    = Some (Done (s3\<lparr>current_pos_mm := clamp_travel cfg (last pos),
                                      enabled := False,
                                      clock := Suc (clock s3),
                                      status := (if stop_is_set env (clock s3) then Stopped else Idle),
                                      progress := (if stop_is_set env (clock s3) then progress s3 else 1)\<rparr>)))"
proof (cases "run_segments env cfg (perf_counter env (clock s))
                   (max (1 / 10 ^ 6) (last times_l)) times_l pos 0
                   (observe (s\<lparr>status := Running, enabled := True\<rparr>))")
  case (Done s3)
  have sp': "sample_profile profile (1 / 50) = Some (Inr (times_l, pos))"
    using sp by simp
  show ?thesis
    using Done ne by (simp add: do_run_profile_def sp' Let_def observe_def)
next
  case (Raised e s3)
  have sp': "sample_profile profile (1 / 50) = Some (Inr (times_l, pos))"
    using sp by simp
  show ?thesis
    using Raised ne by (simp add: do_run_profile_def sp' Let_def)
qed

lemma run_profile_returns:
  assumes v: "valid_profile profile"
  shows "\<exists>r. do_run_profile env cfg profile s = Some r"
proof -
  have dt: "(0 :: real) < 2 / 100" by simp
  from sample_profile_result[OF v dt] obtain ts ps where
    sp: "sample_profile profile (2 / 100) = Some (Inr (ts, ps))"
    and len: "length ts = length ps" and ne: "ts \<noteq> []"
    by blast
  have pne: "ps \<noteq> []" using len ne by auto
  from do_run_profile_cases[OF sp ne pne, of env cfg s] show ?thesis by blast
qed






subsection \<open>The worker\<close>

lemma run_command_returns:
  assumes "well_formed_command cmd"
  shows "\<exists>r. run_command env cfg cmd s = Some r"
proof (cases cmd)
  case (RunProfile profile)
  with assms have "valid_profile profile" by (simp add: well_formed_command_def)
  from run_profile_returns[OF this] RunProfile show ?thesis
    by (simp add: run_command_def)
qed (simp_all add: run_command_def)

lemma worker_iteration_returns:
  assumes "well_formed_command cmd"
  shows "\<exists>s'. worker_iteration env cfg cmd s = Some s'"
proof -
  from run_command_returns[OF assms] obtain r where
    "run_command env cfg cmd (s\<lparr>error := None\<rparr>) = Some r" by blast
  then show ?thesis
    by (cases r) (simp_all add: worker_iteration_def)
qed

lemma worker_loop_returns:
  assumes "list_all well_formed_command cmds"
  shows "\<exists>s'. worker_loop env cfg cmds s = Some s'"
  using assms
proof (induction cmds arbitrary: s)
  case Nil
  then show ?case by simp
next
  case (Cons cmd cmds)
  then have "well_formed_command cmd" "list_all well_formed_command cmds" by simp_all
  from worker_iteration_returns[OF this(1)] obtain s1 where
    "worker_iteration env cfg cmd s = Some s1" by blast
  with Cons.IH[OF \<open>list_all well_formed_command cmds\<close>, of s1] show ?case by simp
qed

text \<open>
  Claim C8. When a command raises, the worker stores the exception's message in
  \<open>error\<close>, sets the status to error, disables the driver, and goes on: the commands
  queued behind it are executed from that state, and the loop reaches the end of its
  queue.
\<close>

theorem worker_survives_exception:
  assumes "list_all well_formed_command cmds"
    and "run_command env cfg cmd (s\<lparr>error := None\<rparr>) = Some (Raised e s')"
  shows "worker_iteration env cfg cmd s
           = Some (s'\<lparr>error := Some (str_of e), status := Error, enabled := False\<rparr>)
         \<and> (\<exists>s_end. worker_loop env cfg (cmd # cmds) s = Some s_end
               \<and> worker_loop env cfg cmds
                    (s'\<lparr>error := Some (str_of e), status := Error, enabled := False\<rparr>) = Some s_end)"
proof -
  have it: "worker_iteration env cfg cmd s
           = Some (s'\<lparr>error := Some (str_of e), status := Error, enabled := False\<rparr>)"
    using assms(2) by (simp add: worker_iteration_def)
  from worker_loop_returns[OF assms(1)] obtain s_end where
    "worker_loop env cfg cmds (s'\<lparr>error := Some (str_of e), status := Error, enabled := False\<rparr>)
       = Some s_end" by blast
  with it show ?thesis by simp
qed


text \<open>
  The statement with a speed limit of zero: running \<open>short_profile\<close> raises
  \<^verbatim>\<open>ZeroDivisionError\<close>, and the home command queued behind it is executed.
\<close>

theorem worker_survives_exception_witness:
  "list_all well_formed_command [Home]
   \<and> run_command quiet_env zero_speed_config (RunProfile short_profile)
        ((idle_at 0 True)\<lparr>error := None\<rparr>)
       = Some (Raised ZeroDivisionError
                ((idle_at 0 True)\<lparr>status := Running, enabled := True, clock := 2\<rparr>))
   \<and> worker_iteration quiet_env zero_speed_config (RunProfile short_profile) (idle_at 0 True)
       = Some ((idle_at 0 True)\<lparr>status := Error, enabled := False, clock := 2,
                                   error := Some ''float division by zero''\<rparr>)
   \<and> (\<exists>s_end. worker_loop quiet_env zero_speed_config [RunProfile short_profile, Home] (idle_at 0 True)
                  = Some s_end
               \<and> worker_loop quiet_env zero_speed_config [Home]
                    ((idle_at 0 True)\<lparr>status := Error, enabled := False, clock := 2,
                                        error := Some ''float division by zero''\<rparr>) = Some s_end)"
proof -
  have w: "list_all well_formed_command [Home]"
    by (simp add: well_formed_command_def)
  have s2: "sample_profile short_profile (1 / 50) = Some (Inr ([0, 1 / 50], [0, 1 / 200]))"
    by (simp add: sample_profile_def short_profile_def linear_kf_def
        sample_loop.simps find_segment.simps interpolate_def ease_fn_def linear_ease_def Let_def)
  have r: "run_command quiet_env zero_speed_config (RunProfile short_profile)
        ((idle_at 0 True)\<lparr>error := None\<rparr>)
       = Some (Raised ZeroDivisionError
                ((idle_at 0 True)\<lparr>status := Running, enabled := True, clock := 2\<rparr>))"
    using s2
    by (simp add: run_command_def do_run_profile_def Let_def run_segments.simps[of _ _ _ _ _ _ 0]
        clamp_travel_def zero_speed_config_def observe_def quiet_env_def idle_at_def)
  have e: "((idle_at 0 True)\<lparr>status := Running, enabled := True, clock := 2\<rparr>)
             \<lparr>error := Some (str_of ZeroDivisionError), status := Error, enabled := False\<rparr>
           = (idle_at 0 True)\<lparr>status := Error, enabled := False, clock := 2,
                                   error := Some ''float division by zero''\<rparr>"
    by (simp add: idle_at_def)
  from worker_survives_exception[OF w r] w r show ?thesis
    unfolding e by blast
qed

subsection \<open>The travel range\<close>

text \<open>
  The seek and the pulse loop of a profile run clamp the position after every pulse,
  so they keep it within the travel.
\<close>

lemma clamp_travel_range: "0 \<le> travel_mm cfg \<Longrightarrow> 0 \<le> clamp_travel cfg x \<and> clamp_travel cfg x \<le> travel_mm cfg"
  by (simp add: clamp_travel_def)

lemma seek_loop_in_range:
  assumes tr: "0 \<le> travel_mm cfg"
    and "0 \<le> current_pos_mm s \<and> current_pos_mm s \<le> travel_mm cfg"
    and "seek_loop env cfg m n i s = Done s'"
  shows "0 \<le> current_pos_mm s' \<and> current_pos_mm s' \<le> travel_mm cfg"
  using assms(2,3)
proof (induction "n - i" arbitrary: i s)
  case 0
  then have "seek_loop env cfg m n i s = Done s"
    by (subst seek_loop.simps) simp
  with 0 show ?case by simp
next
  case (Suc k)
  then have lt: "i < n" and k: "k = n - Suc i" by simp_all
  define s3 where "s3 = (pulse_step (observe (observe s)))\<lparr>current_pos_mm :=
      clamp_travel cfg (current_pos_mm s + (if \<not> m then 1 else - 1) / steps_per_mm cfg)\<rparr>"
  have r3: "0 \<le> current_pos_mm s3 \<and> current_pos_mm s3 \<le> travel_mm cfg"
    using clamp_travel_range[OF tr] by (simp add: s3_def)
  have "seek_loop env cfg m n i s = Done (observe s)
        \<or> seek_loop env cfg m n i s = Done (observe (observe s))
        \<or> seek_loop env cfg m n i s = Raised ZeroDivisionError (pulse_step (observe (observe s)))
        \<or> seek_loop env cfg m n i s = seek_loop env cfg m n (Suc i) s3"
    using lt by (subst (1 2 3 4) seek_loop.simps) (cases m; simp add: Let_def s3_def)
  with Suc.prems Suc.hyps(1)[OF k r3] show ?case by auto
qed

lemma run_steps_in_range:
  assumes tr: "0 \<le> travel_mm cfg"
    and "0 \<le> current_pos_mm s \<and> current_pos_mm s \<le> travel_mm cfg"
    and "run_steps env cfg d deadline n i s = Done s'"
  shows "0 \<le> current_pos_mm s' \<and> current_pos_mm s' \<le> travel_mm cfg"
  using assms(2,3)
proof (induction "n - i" arbitrary: i s)
  case 0
  then have "run_steps env cfg d deadline n i s = Done s"
    by (subst run_steps.simps) simp
  with 0 show ?case by simp
next
  case (Suc k)
  then have lt: "i < n" and k: "k = n - Suc i" by simp_all
  define s5 where "s5 = observe ((pulse_step (observe (observe (observe s))))\<lparr>current_pos_mm :=
      clamp_travel cfg (current_pos_mm s + (if d then 1 else - 1) / steps_per_mm cfg)\<rparr>)"
  have r5: "0 \<le> current_pos_mm s5 \<and> current_pos_mm s5 \<le> travel_mm cfg"
    using clamp_travel_range[OF tr] by (simp add: s5_def)
  have "run_steps env cfg d deadline n i s = Done (observe s)
        \<or> run_steps env cfg d deadline n i s = Done (observe (observe s))
        \<or> run_steps env cfg d deadline n i s = Done (observe (observe (observe s)))
        \<or> run_steps env cfg d deadline n i s
            = Raised ZeroDivisionError (pulse_step (observe (observe (observe s))))
        \<or> run_steps env cfg d deadline n i s = run_steps env cfg d deadline n (Suc i) s5"
    using lt by (subst (1 2 3 4 5) run_steps.simps) (cases d; simp add: Let_def s5_def)
  with Suc.prems Suc.hyps(1)[OF k r5] show ?case by auto
qed

text \<open>
  Claim C1 at a failing input. \<^verbatim>\<open>_relative_move\<close> does not clamp after a pulse.
  From the initial state, a run of \<open>tiny_profile\<close> leaves the position at 0.002 mm;
  a jog of -1 mm is then truncated to the target 0, rounds 0.8 steps up to one step of
  0.0025 mm, and leaves the position at -0.0005 mm, below the travel range.
\<close>

theorem jog_leaves_travel:
  "valid_profile tiny_profile
   \<and> worker_loop quiet_env default_config [RunProfile tiny_profile] (idle_at 0 False)
       = Some ((idle_at 0 False)\<lparr>current_pos_mm := 2 / 1000, progress := 1, pulses := 1, clock := 9\<rparr>)
   \<and> worker_loop quiet_env default_config [RunProfile tiny_profile, Jog (- 1) 50] (idle_at 0 False)
       = Some ((idle_at 0 False)\<lparr>current_pos_mm := - (1 / 2000), progress := 1,
                                   dir_positive := False, pulses := 2, clock := 11\<rparr>)"
proof -
  have v: "valid_profile tiny_profile"
    by (simp add: valid_profile_def tiny_profile_def linear_kf_def ease_ok_def)
  have s: "sample_profile tiny_profile (1 / 50) = Some (Inr ([0, 1 / 50], [0, 1 / 500]))"
    by (simp add: sample_profile_def tiny_profile_def linear_kf_def
        sample_loop.simps find_segment.simps interpolate_def ease_fn_def linear_ease_def Let_def)
  have r: "py_round (4 / 5) = 1"
    by (simp add: py_round_def Let_def)
  have run: "worker_iteration quiet_env default_config (RunProfile tiny_profile) (idle_at 0 False)
       = Some ((idle_at 0 False)\<lparr>current_pos_mm := 2 / 1000, progress := 1, pulses := 1, clock := 9\<rparr>)"
    using s r
    by (simp add: worker_iteration_def run_command_def do_run_profile_def Let_def
        run_segments.simps[of _ _ _ _ _ _ 0] run_segments.simps[of _ _ _ _ _ _ "Suc 0"]
        run_steps.simps[of _ _ _ _ _ 0] run_steps.simps[of _ _ _ _ _ "Suc 0"]
        clamp_travel_def spm_default travel_default observe_def pulse_step_def quiet_env_def idle_at_def)
  have jog: "worker_iteration quiet_env default_config (Jog (- 1) 50)
          ((idle_at 0 False)\<lparr>current_pos_mm := 2 / 1000, progress := 1, pulses := 1, clock := 9\<rparr>)
       = Some ((idle_at 0 False)\<lparr>current_pos_mm := - (1 / 2000), progress := 1,
                                   dir_positive := False, pulses := 2, clock := 11\<rparr>)"
    using r
    by (simp add: worker_iteration_def run_command_def do_jog_def relative_move_def Let_def
        relative_move_loop.simps[of _ _ _ _ 0] relative_move_loop.simps[of _ _ _ _ "Suc 0"]
        clamp_travel_def spm_default travel_default observe_def pulse_step_def quiet_env_def idle_at_def)
  from v run jog show ?thesis by simp
qed

subsection \<open>Home\<close>

text \<open>
  Claim C6 at a failing input. The stop flag is checked after the first seek only:
  with \<^verbatim>\<open>stop()\<close> called during the back-off (the flag is unset at the check,
  observation 2, and set from observation 5), the back-off and the re-approach break
  off and the command still sets the position to 0 and marks the axis homed.
\<close>

theorem cancelled_home_marks_homed:
  "\<not> homed (idle_at 0 False)
   \<and> \<not> stop_is_set (at_min_stop_from 5) 2
   \<and> stop_is_set (at_min_stop_from 5) 5
   \<and> worker_loop (at_min_stop_from 5) default_config [Home] (idle_at 0 False)
       = Some ((idle_at 0 False)\<lparr>homed := True, dir_positive := False, pulses := 1, clock := 7\<rparr>)"
  by (simp add: worker_iteration_def run_command_def do_home_def seek_endstop_def relative_move_def
      clamp_travel_def spm_default
      travel_default seek_loop.simps[of _ _ _ _ 0]
      relative_move_loop.simps[of _ _ _ _ 0] relative_move_loop.simps[of _ _ _ _ "Suc 0"]
      observe_def pulse_step_def Let_def at_min_stop_from_def idle_at_def)

end
